theory Spec2Isabelle
  imports Complex_Main
begin

section \<open>The ESP32 light logger (logger.py) as HOL functions\<close>

text \<open>
  The module keeps its state in global variables that several threads share. The model
  collects those globals in one record and turns every function of the module into a
  function on that record. Readings of the clock and outcomes of fallible input/output
  calls are arguments. Python's floats (times, the mean of the accumulator, the step
  \<open>MAX_LIGHT_VALUE / 8\<close>) are modelled by exact rationals; Python's integers by \<open>int\<close>;
  the text of a datagram by the list of its code points.
\<close>

subsection \<open>Constants\<close>

definition DATA_THROTTLE :: rat where
  "DATA_THROTTLE = 1 / 10"

definition MATRIX_UPDATE_INTERVAL :: rat where
  "MATRIX_UPDATE_INTERVAL = 4"

definition MATRIX_HISTORY_SIZE :: nat where
  "MATRIX_HISTORY_SIZE = 8"

definition MAX_LIGHT_VALUE :: rat where
  "MAX_LIGHT_VALUE = 4095"

definition LIGHT_STEP :: rat where
  "LIGHT_STEP = MAX_LIGHT_VALUE / 8"

subsection \<open>Python builtins used by the module\<close>

text \<open>
  A Python string is the list of its code points; \<open>ustr\<close> gives an ASCII literal as such
  a list.
\<close>

type_synonym unicode = "nat list"

definition ustr :: "string \<Rightarrow> unicode" where
  "ustr s = map of_char s"

text \<open>
  \<open>str.split(',')\<close>: the fields between the commas (code point 44); an empty string has
  one empty field.
\<close>

fun split_comma :: "unicode \<Rightarrow> unicode list" where
  "split_comma [] = [[]]"
| "split_comma (c # cs) =
     (if c = 44 then [] # split_comma cs
      else (case split_comma cs of
              [] \<Rightarrow> [[c]]
            | p # ps \<Rightarrow> (c # p) # ps))"

text \<open>
  The whitespace of \<open>str.strip()\<close>: U+0009 to U+000D, U+001C to U+0020, U+0085, U+00A0,
  U+1680, U+2000 to U+200A, U+2028, U+2029, U+202F, U+205F and U+3000.
\<close>

definition unicode_space :: "nat \<Rightarrow> bool" where
  "unicode_space c =
     ((9 \<le> c \<and> c \<le> 13) \<or> (28 \<le> c \<and> c \<le> 32) \<or> c = 133 \<or> c = 160 \<or> c = 5760
      \<or> (8192 \<le> c \<and> c \<le> 8202) \<or> c = 8232 \<or> c = 8233 \<or> c = 8239 \<or> c = 8287
      \<or> c = 12288)"

definition strip :: "unicode \<Rightarrow> unicode" where
  "strip s = rev (dropWhile unicode_space (rev (dropWhile unicode_space s)))"

text \<open>
  \<open>int(text)\<close>. The interpreter first turns every code point from 127 on that is
  whitespace into a blank and every one that is a decimal digit into its ASCII digit, and
  leaves the code points below 127 as they are. Then it skips the C whitespace (9 to 13,
  and 32) on both sides and reads one optional sign and decimal digits, where single
  underscores (95) may stand between digits. Anything else raises ValueError, which is
  \<open>None\<close> here. So U+001C to U+001F are whitespace for \<open>str.strip()\<close> and not for
  \<open>int\<close>.

  Which code points beyond ASCII are decimal digits is a table of the Unicode database the
  interpreter was built with. It is the parameter \<open>decimal\<close>: \<open>decimal c = Some k\<close> says
  that \<open>c\<close> is a decimal digit of value \<open>k\<close>.
\<close>

definition int_space :: "nat \<Rightarrow> bool" where
  "int_space c = ((9 \<le> c \<and> c \<le> 13) \<or> c = 32 \<or> (127 \<le> c \<and> unicode_space c))"

definition int_digit :: "(nat \<Rightarrow> nat option) \<Rightarrow> nat \<Rightarrow> nat option" where
  "int_digit decimal c =
     (if 48 \<le> c \<and> c \<le> 57 then Some (c - 48)
      else if c < 127 then None
      else if unicode_space c then None
      else (case decimal c of
              None \<Rightarrow> None
            | Some k \<Rightarrow> if k < 10 then Some k else None))"

fun digits_from :: "(nat \<Rightarrow> nat option) \<Rightarrow> bool \<Rightarrow> nat \<Rightarrow> unicode \<Rightarrow> nat option" where
  "digits_from decimal after_digit acc [] = (if after_digit then Some acc else None)"
| "digits_from decimal after_digit acc (c # cs) =
     (if c = 95 then (if after_digit then digits_from decimal False acc cs else None)
      else (case int_digit decimal c of
              None \<Rightarrow> None
            | Some k \<Rightarrow> digits_from decimal True (10 * acc + k) cs))"

definition py_nat :: "(nat \<Rightarrow> nat option) \<Rightarrow> unicode \<Rightarrow> nat option" where
  "py_nat decimal s =
     (case s of
        [] \<Rightarrow> None
      | c # cs \<Rightarrow> (if c = 95 then None else digits_from decimal False 0 s))"

definition py_int :: "(nat \<Rightarrow> nat option) \<Rightarrow> unicode \<Rightarrow> int option" where
  "py_int decimal s =
     (case rev (dropWhile int_space (rev (dropWhile int_space s))) of
        [] \<Rightarrow> None
      | c # cs \<Rightarrow>
          (if c = 45 then map_option (\<lambda>n. - int n) (py_nat decimal cs)
           else if c = 43 then map_option int (py_nat decimal cs)
           else map_option int (py_nat decimal (c # cs))))"

text \<open>\<open>int(x)\<close> on a float truncates towards zero.\<close>

definition py_trunc :: "rat \<Rightarrow> int" where
  "py_trunc x = (if 0 \<le> x then \<lfloor>x\<rfloor> else \<lceil>x\<rceil>)"

text \<open>
  \<open>deque(maxlen=n).append(x)\<close>: a full deque drops its oldest (leftmost) entry; with
  \<open>maxlen = 0\<close> nothing is kept.
\<close>

definition deque_append :: "nat \<Rightarrow> 'a list \<Rightarrow> 'a \<Rightarrow> 'a list" where
  "deque_append maxlen xs x =
     (if maxlen = 0 then []
      else if length xs < maxlen then xs @ [x]
      else tl xs @ [x])"

subsection \<open>Quantisation\<close>

definition map_value_to_height :: "rat \<Rightarrow> int" where
  "map_value_to_height light_value =
     (let light_value' = max 0 (min MAX_LIGHT_VALUE light_value);
          height = py_trunc (light_value' / LIGHT_STEP)
      in if height > 7 then 7 else height)"

subsection \<open>The module's state\<close>

type_synonym address = "string \<times> nat"

type_synonym packet = "unicode \<times> address"

text \<open>A data row of the CSV log: \<open>[timestamp, master_ip, light_value]\<close>.\<close>

record log_row =
  row_timestamp :: string
  row_master_ip :: string
  row_light_value :: int

text \<open>An open log file: its path, the header row, and the data rows written so far.\<close>

record log_file =
  path :: string
  header :: "string list"
  rows :: "log_row list"

text \<open>The threads the module starts, named by their target function.\<close>

datatype thread = Listener | MatrixUpdater | ResetSequence

text \<open>What the module does to the world outside its variables, in the order it does it.\<close>

datatype event =
    LedOn
  | LedOff
  | Sleep rat
  | Join thread rat
  | Start thread
  | SendTo string
  | DisplayClear
  | Draw "int list"

datatype exn = ValueError | OverflowError | OSError

text \<open>
  The globals of the module. \<open>log_writer\<close> and \<open>log_file_handle\<close> are assigned together and
  are one field here: \<open>None\<close> when no log file is open. \<open>MATRIX_ENABLED\<close> is fixed when the
  module is loaded. \<open>trace\<close> is not a variable of the module: it lists the events so far.
\<close>

record state =
  MATRIX_ENABLED :: bool
  listening_thread :: "thread option"
  stop_listening :: bool
  current_log_file :: "string option"
  log_file_handle :: "log_file option"
  reset_in_progress :: bool
  packet_queue :: "packet list"
  matrix_columns :: "int list"
  last_matrix_update :: rat
  light_value_accumulator :: "int list"
  packet_count :: nat
  last_process_time :: rat
  trace :: "event list"

definition initial_state :: "bool \<Rightarrow> state" where
  "initial_state matrix_enabled =
     \<lparr> MATRIX_ENABLED = matrix_enabled,
       listening_thread = None,
       stop_listening = False,
       current_log_file = None,
       log_file_handle = None,
       reset_in_progress = False,
       packet_queue = [],
       matrix_columns = [],
       last_matrix_update = 0,
       light_value_accumulator = [],
       packet_count = 0,
       last_process_time = 0,
       trace = [] \<rparr>"

definition emit :: "event list \<Rightarrow> state \<Rightarrow> state" where
  "emit es s = s\<lparr>trace := trace s @ es\<rparr>"

subsection \<open>The display\<close>

text \<open>A failure of the drawing is caught inside the function and changes nothing else.\<close>

definition update_led_matrix :: "state \<Rightarrow> state" where
  "update_led_matrix s =
     (if \<not> MATRIX_ENABLED s then s else emit [Draw (matrix_columns s)] s)"

text \<open>
  \<open>clear_raises\<close>: the call \<open>matrix_device.clear()\<close> raises. The exception is caught
  inside the function, after which neither the history nor the accumulator is cleared.
\<close>

definition clear_led_matrix :: "bool \<Rightarrow> state \<Rightarrow> state" where
  "clear_led_matrix clear_raises s =
     (if \<not> MATRIX_ENABLED s then s
      else if clear_raises then s
      else (emit [DisplayClear] s)\<lparr>matrix_columns := [], light_value_accumulator := []\<rparr>)"

subsection \<open>The session log file\<close>

definition create_new_log_file :: "string \<Rightarrow> bool \<Rightarrow> state \<Rightarrow> state \<times> exn option" where
  "create_new_log_file file_name open_raises s =
     (let s1 = s\<lparr>current_log_file := Some file_name\<rparr>
      in if open_raises then (s1, Some OSError)
         else (s1\<lparr>log_file_handle :=
                     Some \<lparr>path = file_name,
                           header = [''Timestamp'', ''Master_IP'', ''Light_Value''],
                           rows = []\<rparr>\<rparr>, None))"

definition close_log_file :: "state \<Rightarrow> state" where
  "close_log_file s =
     (case log_file_handle s of
        None \<Rightarrow> s
      | Some f \<Rightarrow> s\<lparr>log_file_handle := None\<rparr>)"

subsection \<open>The throttled logger\<close>

text \<open>
  What one call of \<open>log_master_data\<close> observes: the reading of \<open>time.time()\<close>, the formatted
  \<open>datetime.now()\<close>, and whether writing or flushing the row raises (the exception is
  caught inside the function).
\<close>

record observation =
  time_time :: rat
  datetime_now :: string
  write_raises :: bool

definition log_master_data :: "observation \<Rightarrow> string \<Rightarrow> int \<Rightarrow> state \<Rightarrow> state" where
  "log_master_data ob master_ip light_value s =
     (let current_time = time_time ob
      in if current_time - last_process_time s < DATA_THROTTLE then s
         else
           (let s1 = s\<lparr>last_process_time := current_time\<rparr>;
                s2 = s1\<lparr>packet_count := packet_count s1 + 1\<rparr>;
                s3 = s2\<lparr>light_value_accumulator := light_value_accumulator s2 @ [light_value]\<rparr>
            in case log_file_handle s3 of
                 None \<Rightarrow> s3
               | Some f \<Rightarrow>
                   if write_raises ob then s3
                   else s3\<lparr>log_file_handle :=
                              Some (f\<lparr>rows := rows f @
                                 [\<lparr>row_timestamp = datetime_now ob,
                                   row_master_ip = master_ip,
                                   row_light_value = light_value\<rparr>]\<rparr>)\<rparr>))"

subsection \<open>The packet processor\<close>

text \<open>
  \<open>process_loop decimal n obs i s\<close> is the \<open>for\<close> loop of \<open>process_packets\<close> with \<open>n\<close> iterations
  left, the next one being iteration \<open>i\<close>; \<open>obs i\<close> is what a call of \<open>log_master_data\<close> in
  iteration \<open>i\<close> observes. An exception leaves the loop: the result carries it, with the state
  at the moment it was raised.
\<close>

fun process_loop :: "(nat \<Rightarrow> nat option) \<Rightarrow> nat \<Rightarrow> (nat \<Rightarrow> observation) \<Rightarrow> nat \<Rightarrow> state \<Rightarrow> state \<times> exn option" where
  "process_loop decimal 0 obs i s = (s, None)"
| "process_loop decimal (Suc n) obs i s =
     (case packet_queue s of
        [] \<Rightarrow> (s, None)
      | (message, address) # rest \<Rightarrow>
          (let s1 = s\<lparr>packet_queue := rest\<rparr>;
               parts = split_comma message
           in if length parts \<ge> 3 then
                (case py_int decimal (parts ! 0) of
                   None \<Rightarrow> (s1, Some ValueError)
                 | Some flag \<Rightarrow>
                     (case py_int decimal (parts ! 1) of
                        None \<Rightarrow> (s1, Some ValueError)
                      | Some light_value \<Rightarrow>
                          (let is_master = (flag = 1);
                               device_ip = fst address;
                               s2 = (if is_master then log_master_data (obs i) device_ip light_value s1
                                     else s1)
                           in process_loop decimal n obs (Suc i) s2)))
              else process_loop decimal n obs (Suc i) s1))"

text \<open>The \<open>try\<close> encloses the whole loop; the handler prints the exception and returns.\<close>

definition process_packets :: "(nat \<Rightarrow> nat option) \<Rightarrow> (nat \<Rightarrow> observation) \<Rightarrow> state \<Rightarrow> state" where
  "process_packets decimal obs s = fst (process_loop decimal 100 obs 0 s)"

text \<open>The receiver's step on a datagram: the stripped text and the sender go to the queue.\<close>

definition enqueue_packet :: "unicode \<Rightarrow> address \<Rightarrow> state \<Rightarrow> state" where
  "enqueue_packet data address s =
     s\<lparr>packet_queue := packet_queue s @ [(strip data, address)]\<rparr>"

subsection \<open>The aggregator\<close>

text \<open>
  \<open>sum(xs) / len(xs)\<close> divides two integers into a float and raises OverflowError when the
  quotient is too large for one.
\<close>

definition float_overflows :: "rat \<Rightarrow> bool" where
  "float_overflows q = (\<bar>q\<bar> \<ge> 2 ^ 1024 - 2 ^ 970)"

definition average :: "int list \<Rightarrow> exn + rat" where
  "average xs =
     (if xs \<noteq> [] then
        (let q = of_int (sum_list xs) / of_int (int (length xs))
         in if float_overflows q then Inl OverflowError else Inr q)
      else Inr 0)"

text \<open>
  One pass through the body of the \<open>while\<close> loop of \<open>matrix_update_thread\<close>, with
  \<open>current_time\<close> the reading of the clock. An exception is caught by the handler of the
  loop, which sleeps one second.
\<close>

definition matrix_update_iteration :: "rat \<Rightarrow> state \<Rightarrow> state" where
  "matrix_update_iteration current_time s =
     (if current_time - last_matrix_update s \<ge> MATRIX_UPDATE_INTERVAL then
        (case average (light_value_accumulator s) of
           Inl e \<Rightarrow> emit [Sleep 1] s
         | Inr avg_light \<Rightarrow>
             (let s1 = (if light_value_accumulator s \<noteq> [] then s\<lparr>light_value_accumulator := []\<rparr> else s);
                  height = map_value_to_height avg_light;
                  s2 = s1\<lparr>matrix_columns := deque_append MATRIX_HISTORY_SIZE (matrix_columns s1) height\<rparr>;
                  s3 = update_led_matrix s2;
                  s4 = s3\<lparr>last_matrix_update := current_time\<rparr>
              in emit [Sleep (1 / 10)] s4))
      else emit [Sleep (1 / 10)] s)"

subsection \<open>Stopping and starting the pipeline\<close>

text \<open>
  \<open>send_loop n i send_raises s\<close> is the \<open>for\<close> loop of \<open>send_reset_command\<close> with \<open>n\<close>
  iterations left, the next one being iteration \<open>i\<close>; \<open>send_raises = Some k\<close> says that the
  call of \<open>sendto\<close> in iteration \<open>k\<close> raises.
\<close>

definition reset_message :: string where
  "reset_message = ''0,0,255,1''"

fun send_loop :: "nat \<Rightarrow> nat \<Rightarrow> nat option \<Rightarrow> state \<Rightarrow> state \<times> exn option" where
  "send_loop 0 i send_raises s = (s, None)"
| "send_loop (Suc n) i send_raises s =
     (if send_raises = Some i then (s, Some OSError)
      else send_loop n (Suc i) send_raises (emit [SendTo reset_message, Sleep (1 / 10)] s))"

definition send_reset_command :: "nat option \<Rightarrow> state \<Rightarrow> state \<times> exn option" where
  "send_reset_command send_raises s = send_loop 10 0 send_raises s"

text \<open>
  The only thread that is joined is the one stored in \<open>listening_thread\<close>. The join returns
  after at most the timeout, whether the thread has ended or not.
\<close>

definition stop_multicast_listener :: "state \<Rightarrow> state" where
  "stop_multicast_listener s =
     (let s1 = s\<lparr>stop_listening := True\<rparr>;
          s2 = (case listening_thread s1 of
                  None \<Rightarrow> s1
                | Some t \<Rightarrow> (emit [Join t 3] s1)\<lparr>listening_thread := None\<rparr>)
      in close_log_file s2)"

text \<open>
  What one call of \<open>start_multicast_listener\<close> observes: the clock, whether the display's
  \<open>clear()\<close> raises, the name of the new log file, and whether opening it raises.
\<close>

record start_io =
  start_time :: rat
  start_clear_raises :: bool
  start_file_name :: string
  start_open_raises :: bool

definition start_multicast_listener :: "start_io \<Rightarrow> state \<Rightarrow> state \<times> exn option" where
  "start_multicast_listener io s =
     (let s1 = s\<lparr>stop_listening := False, packet_count := 0, last_process_time := 0,
                 last_matrix_update := start_time io\<rparr>;
          s2 = s1\<lparr>packet_queue := []\<rparr>;
          s3 = clear_led_matrix (start_clear_raises io) s2
      in case create_new_log_file (start_file_name io) (start_open_raises io) s3 of
           (s4, Some e) \<Rightarrow> (s4, Some e)
         | (s4, None) \<Rightarrow>
             (let s5 = (emit [Start Listener] s4)\<lparr>listening_thread := Some Listener\<rparr>;
                  s6 = (if MATRIX_ENABLED s5 then emit [Start MatrixUpdater] s5 else s5)
              in (s6, None)))"

subsection \<open>The reset sequence and the button\<close>

text \<open>
  What one run of the reset sequence observes: whether the display's \<open>clear()\<close> raises
  in the clearing step, which \<open>sendto\<close> raises if any, and what the restart observes. The
  LED and the starting of threads are taken not to raise.

  The \<open>try\<close> block runs until a step raises; the handler prints the exception; the
  \<open>finally\<close> clause clears the flag on every path.
\<close>

record reset_io =
  reset_clear_raises :: bool
  send_raises_at :: "nat option"
  restart_io :: start_io


definition handle_reset_sequence :: "reset_io \<Rightarrow> state \<Rightarrow> state" where
  "handle_reset_sequence io s =
     (let s1 = emit [LedOn] s;
          s2 = stop_multicast_listener s1;
          s3 = clear_led_matrix (reset_clear_raises io) s2;
          r = (case send_reset_command (send_raises_at io) s3 of
                 (s4, Some e) \<Rightarrow> (s4, Some e)
               | (s4, None) \<Rightarrow>
                   (let s5 = emit [Sleep 3] s4;
                        s6 = emit [LedOff] s5;
                        s7 = emit [Sleep 5] s6
                    in start_multicast_listener (restart_io io) s7))
      in (fst r)\<lparr>reset_in_progress := False\<rparr>)"

definition button_pressed_handler :: "state \<Rightarrow> state" where
  "button_pressed_handler s =
     (let s1 = emit [LedOn, Sleep (1 / 10), LedOff] s
      in if reset_in_progress s1 then s1
         else emit [Start ResetSequence] (s1\<lparr>reset_in_progress := True\<rparr>))"

subsection \<open>Threads running side by side\<close>

text \<open>
  A running reset sequence is at one of three places: before the stop, before the
  broadcast, before the restart. Between two of them it sleeps or waits, and the other
  threads run. \<open>reset_step\<close> runs the sequence from one place to the next; \<open>None\<close> says the
  sequence has ended (through its \<open>finally\<close> clause).
\<close>

datatype reset_pc = AtStop | AtBroadcast | AtRestart

fun reset_step :: "reset_io \<Rightarrow> reset_pc \<Rightarrow> state \<Rightarrow> state \<times> reset_pc option" where
  "reset_step io AtStop s =
     (clear_led_matrix (reset_clear_raises io) (stop_multicast_listener (emit [LedOn] s)),
      Some AtBroadcast)"
| "reset_step io AtBroadcast s =
     (case send_reset_command (send_raises_at io) s of
        (s', Some e) \<Rightarrow> (s'\<lparr>reset_in_progress := False\<rparr>, None)
      | (s', None) \<Rightarrow> (emit [Sleep 5] (emit [LedOff] (emit [Sleep 3] s')), Some AtRestart))"
| "reset_step io AtRestart s =
     ((fst (start_multicast_listener (restart_io io) s))\<lparr>reset_in_progress := False\<rparr>, None)"

text \<open>The number of reset sequences that the events \<open>es\<close> start.\<close>

definition resets_started :: "event list \<Rightarrow> nat" where
  "resets_started es = length (filter (\<lambda>e. e = Start ResetSequence) es)"

text \<open>
  A configuration is the module's state with the places of the reset sequences that have
  been started and have not ended. The program starts the pipeline from the initial state;
  then the button handler (pressed events are delivered one after the other), the reset
  sequences, the main loop, the receiver and the aggregator take steps in any order.
\<close>

inductive reachable :: "state \<times> reset_pc list \<Rightarrow> bool" where
  startup: "reachable (fst (start_multicast_listener io (initial_state matrix_enabled)), [])"
| press: "reachable (s, ts) \<Longrightarrow>
     reachable (button_pressed_handler s,
       ts @ replicate (resets_started (trace (button_pressed_handler s)) - resets_started (trace s)) AtStop)"
| reset_goes_on: "reachable (s, ts @ pc # us) \<Longrightarrow> reset_step rio pc s = (s', Some pc') \<Longrightarrow>
     reachable (s', ts @ pc' # us)"
| reset_ends: "reachable (s, ts @ pc # us) \<Longrightarrow> reset_step rio pc s = (s', None) \<Longrightarrow>
     reachable (s', ts @ us)"
| main_loop: "reachable (s, ts) \<Longrightarrow> reachable (process_packets decimal obs s, ts)"
| receiver: "reachable (s, ts) \<Longrightarrow> reachable (enqueue_packet data address s, ts)"
| aggregator: "reachable (s, ts) \<Longrightarrow> MATRIX_ENABLED s \<Longrightarrow>
     reachable (matrix_update_iteration current_time s, ts)"

subsection \<open>Runs of one session\<close>

text \<open>
  The steps taken between a start of the pipeline and the next stop: passes of the main
  loop, datagrams received, passes of the aggregator's loop.
\<close>

datatype action =
    ProcessPackets "nat \<Rightarrow> nat option" "nat \<Rightarrow> observation"
  | Receive unicode address
  | MatrixIteration rat

fun perform :: "action \<Rightarrow> state \<Rightarrow> state" where
  "perform (ProcessPackets decimal obs) s = process_packets decimal obs s"
| "perform (Receive data address) s = enqueue_packet data address s"
| "perform (MatrixIteration current_time) s = matrix_update_iteration current_time s"

fun run :: "action list \<Rightarrow> state \<Rightarrow> state" where
  "run [] s = s"
| "run (a # as) s = run as (perform a s)"

text \<open>
  The aggregator fires in a pass when the interval has elapsed and the mean can be
  computed; \<open>fired_height\<close> is the height it then appends.
\<close>

definition fired_height :: "rat \<Rightarrow> state \<Rightarrow> int option" where
  "fired_height current_time s =
     (if current_time - last_matrix_update s \<ge> MATRIX_UPDATE_INTERVAL then
        (case average (light_value_accumulator s) of
           Inl e \<Rightarrow> None
         | Inr avg_light \<Rightarrow> Some (map_value_to_height avg_light))
      else None)"

fun fired_heights :: "action list \<Rightarrow> state \<Rightarrow> int list" where
  "fired_heights [] s = []"
| "fired_heights (MatrixIteration current_time # as) s =
     (case fired_height current_time s of
        None \<Rightarrow> fired_heights as (perform (MatrixIteration current_time) s)
      | Some h \<Rightarrow> h # fired_heights as (perform (MatrixIteration current_time) s))"
| "fired_heights (a # as) s = fired_heights as (perform a s)"

subsection \<open>The specification's words\<close>

text \<open>
  The specification's quantisation law: the mean of the accumulator, 0 when it is empty,
  and the bucket \<open>clamp(floor(mean / 512), 0, 7)\<close>.
\<close>

definition spec_mean :: "int list \<Rightarrow> rat" where
  "spec_mean xs = (if xs = [] then 0 else of_int (sum_list xs) / of_int (int (length xs)))"

definition spec_bucket :: "rat \<Rightarrow> int" where
  "spec_bucket mean = max 0 (min 7 \<lfloor>mean / 512\<rfloor>)"

text \<open>The bucket with the step \<open>4095 / 8\<close> in place of 512.\<close>

definition step_bucket :: "rat \<Rightarrow> int" where
  "step_bucket mean = max 0 (min 7 \<lfloor>mean / (4095 / 8)\<rfloor>)"

text \<open>
  A malformed record in the specification's words: fewer than 3 comma-separated fields,
  or a second field that is not a parseable integer.
\<close>

definition malformed :: "(nat \<Rightarrow> nat option) \<Rightarrow> unicode \<Rightarrow> bool" where
  "malformed decimal message =
     (length (split_comma message) < 3 \<or> py_int decimal (split_comma message ! 1) = None)"

subsection \<open>Reading the log, and example inputs\<close>

text \<open>The data rows of the open session log file; none when no file is open.\<close>

definition logged_rows :: "state \<Rightarrow> log_row list" where
  "logged_rows s = (case log_file_handle s of None \<Rightarrow> [] | Some f \<Rightarrow> rows f)"

text \<open>A part of the table of decimal digits: the Arabic-Indic digits U+0660 to U+0669.\<close>

definition example_decimal :: "nat \<Rightarrow> nat option" where
  "example_decimal c = (if 1632 \<le> c \<and> c \<le> 1641 then Some (c - 1632) else None)"

definition example_ob :: "rat \<Rightarrow> observation" where
  "example_ob t =
     \<lparr>time_time = t, datetime_now = ''2026-01-01 00:00:00.000'', write_raises = False\<rparr>"

definition example_obs :: "nat \<Rightarrow> observation" where
  "example_obs i = example_ob (2000 + of_nat i)"

definition example_start_io :: start_io where
  "example_start_io =
     \<lparr>start_time = 1000, start_clear_raises = False,
      start_file_name = ''esp32_log_20260101_000000.csv'', start_open_raises = False\<rparr>"

definition example_reset_io :: reset_io where
  "example_reset_io =
     \<lparr>reset_clear_raises = False, send_raises_at = None, restart_io = example_start_io\<rparr>"

text \<open>The state after \<open>main\<close> has started the pipeline.\<close>

definition example_started :: "bool \<Rightarrow> state" where
  "example_started matrix_enabled =
     fst (start_multicast_listener example_start_io (initial_state matrix_enabled))"

text \<open>An accumulator with mean 1023.75 when the aggregator fires.\<close>

definition quantization_example :: state where
  "quantization_example = (example_started True)\<lparr>light_value_accumulator := [1023, 1024, 1024, 1024]\<rparr>"

text \<open>
  Queues for the processor: a record with a non-integer second field in front of a
  well-formed one, the well-formed one alone, and a record with two fields in front of it.
\<close>

definition malformed_example :: state where
  "malformed_example = (example_started True)\<lparr>packet_queue :=
     [(ustr ''1,abc,0'', (''10.0.0.5'', 5000)), (ustr ''1,2048,0,0'', (''10.0.0.5'', 5000))]\<rparr>"

definition wellformed_example :: state where
  "wellformed_example = (example_started True)\<lparr>packet_queue :=
     [(ustr ''1,2048,0,0'', (''10.0.0.5'', 5000))]\<rparr>"

definition short_example :: state where
  "short_example = (example_started True)\<lparr>packet_queue :=
     [(ustr ''1,2048'', (''10.0.0.5'', 5000)), (ustr ''1,2048,0,0'', (''10.0.0.5'', 5000))]\<rparr>"

text \<open>
  A datagram is received, then the pipeline is stopped (the second step of the reset
  sequence); the main loop goes on calling \<open>process_packets\<close> meanwhile.
\<close>

definition stopped_example :: state where
  "stopped_example =
     stop_multicast_listener (enqueue_packet (ustr ''1,2048,0,0'') (''10.0.0.5'', 5000) (example_started True))"

text \<open>
  The heads of the two worker loops, \<open>while not stop_listening\<close> in \<open>listen_to_multicast\<close>
  and in \<open>matrix_update_thread\<close>: whether the loop goes on to another pass.
\<close>

definition listener_continues :: "state \<Rightarrow> bool" where
  "listener_continues s = (\<not> stop_listening s)"

definition matrix_thread_continues :: "state \<Rightarrow> bool" where
  "matrix_thread_continues s = (\<not> stop_listening s)"

text \<open>A reset in which the fourth \<open>sendto\<close> raises, and the state after a press.\<close>

definition failing_reset_io :: reset_io where
  "failing_reset_io = example_reset_io\<lparr>send_raises_at := Some 3\<rparr>"

definition pressed_example :: state where
  "pressed_example = button_pressed_handler (example_started True)"

text \<open>
  With the display disabled: a reading is accepted, then the button is pressed.
\<close>

definition disabled_example :: state where
  "disabled_example =
     button_pressed_handler (process_packets example_decimal example_obs
       (enqueue_packet (ustr ''1,2048,0,0'') (''10.0.0.5'', 5000) (example_started False)))"

text \<open>
  A datagram is received, the button is pressed, and the reset sequence has stopped the
  pipeline; the datagram is still in the queue.
\<close>

definition leftover_example :: state where
  "leftover_example =
     fst (reset_step example_reset_io AtStop
       (button_pressed_handler
         (enqueue_packet (ustr ''1,2048,0,0'') (''10.0.0.5'', 5000) (example_started True))))"

text \<open>The newest \<open>n\<close> entries of a list.\<close>

definition last_n :: "nat \<Rightarrow> 'a list \<Rightarrow> 'a list" where
  "last_n n xs = drop (length xs - n) xs"


text \<open>
  Nine passes of the aggregator, four seconds apart, from an accumulator holding 4095; and
  a state with a full history.
\<close>

definition bright_example :: state where
  "bright_example = (example_started True)\<lparr>light_value_accumulator := [4095]\<rparr>"

definition nine_fires :: "action list" where
  "nine_fires =
     [MatrixIteration 1004, MatrixIteration 1008, MatrixIteration 1012, MatrixIteration 1016,
      MatrixIteration 1020, MatrixIteration 1024, MatrixIteration 1028, MatrixIteration 1032,
      MatrixIteration 1036]"


definition full_example :: state where
  "full_example = (example_started True)\<lparr>matrix_columns := [7, 0, 0, 0, 0, 0, 0, 0]\<rparr>"

text \<open>A reset in which both calls of the display's \<open>clear()\<close> raise.\<close>

definition raising_clear_io :: reset_io where
  "raising_clear_io =
     \<lparr>reset_clear_raises = True, send_raises_at = None,
      restart_io = example_start_io\<lparr>start_clear_raises := True\<rparr>\<rparr>"

text \<open>
  Two records with three fields: in the first the second field is U+001C before the digit
  5, which \<open>int\<close> does not accept; in the second it is U+00A0 before the Arabic-Indic
  digit five, which \<open>int\<close> reads as 5.
\<close>

definition separator_record :: unicode where
  "separator_record = ustr ''1,'' @ [28, 53] @ ustr '',0''"

definition nbsp_record :: unicode where
  "nbsp_record = ustr ''1,'' @ [160, 1637] @ ustr '',0''"

definition separator_example :: state where
  "separator_example = (example_started True)\<lparr>packet_queue :=
     [(separator_record, (''10.0.0.5'', 5000)), (ustr ''1,2048,0,0'', (''10.0.0.5'', 5000))]\<rparr>"

definition nbsp_example :: state where
  "nbsp_example = (example_started True)\<lparr>packet_queue := [(nbsp_record, (''10.0.0.5'', 5000))]\<rparr>"

text \<open>
  The number of steps a reset sequence still has to take at most, and the sequence run on
  its own for at most \<open>n\<close> steps: \<open>Some\<close> the state in which it has ended, \<open>None\<close> when
  it has not ended by then.
\<close>

definition steps_left :: "reset_pc \<Rightarrow> nat" where
  "steps_left pc = (case pc of AtStop \<Rightarrow> 3 | AtBroadcast \<Rightarrow> 2 | AtRestart \<Rightarrow> 1)"

fun reset_run :: "nat \<Rightarrow> reset_io \<Rightarrow> reset_pc \<Rightarrow> state \<Rightarrow> state option" where
  "reset_run 0 io pc s = None"
| "reset_run (Suc n) io pc s =
     (case reset_step io pc s of
        (s', None) \<Rightarrow> Some s'
      | (s', Some pc') \<Rightarrow> reset_run n io pc' s')"

text \<open>
  A state in the middle of a session: a full history, two values in the accumulator, a
  record in the queue and a row in the log.
\<close>

definition busy_example :: state where
  "busy_example =
     (example_started True)
       \<lparr>reset_in_progress := True,
        matrix_columns := [7, 0, 0, 0, 0, 0, 0, 0],
        light_value_accumulator := [4095, 2048],
        packet_queue := [(ustr ''1,2048,0,0'', (''10.0.0.5'', 5000))],
        packet_count := 3,
        last_process_time := 1030,
        log_file_handle :=
          Some \<lparr>path = ''esp32_log_20260101_000000.csv'',
                header = [''Timestamp'', ''Master_IP'', ''Light_Value''],
                rows = [\<lparr>row_timestamp = ''2026-01-01 00:00:01.000'',
                         row_master_ip = ''10.0.0.5'', row_light_value = 4095\<rparr>]\<rparr>\<rparr>"

section \<open>Properties\<close>

subsection \<open>The throttle\<close>

lemma log_master_data_dropped:
  "time_time ob - last_process_time s < DATA_THROTTLE \<Longrightarrow> log_master_data ob ip v s = s"
  by (simp add: log_master_data_def)

lemma log_master_data_accepted:
  assumes "DATA_THROTTLE \<le> time_time ob - last_process_time s"
  shows "last_process_time (log_master_data ob ip v s) = time_time ob"
    and "light_value_accumulator (log_master_data ob ip v s) = light_value_accumulator s @ [v]"
    and "packet_count (log_master_data ob ip v s) = packet_count s + 1"
    and "log_file_handle s \<noteq> None \<Longrightarrow> \<not> write_raises ob \<Longrightarrow>
         logged_rows (log_master_data ob ip v s) = logged_rows s @
           [\<lparr>row_timestamp = datetime_now ob, row_master_ip = ip, row_light_value = v\<rparr>]"
  using assms by (auto simp: log_master_data_def logged_rows_def Let_def split: option.splits)

lemma example_started_fields:
  "last_process_time (example_started b) = 0"
  "light_value_accumulator (example_started b) = []"
  "matrix_columns (example_started b) = []"
  "packet_queue (example_started b) = []"
  "MATRIX_ENABLED (example_started b) = b"
  "reset_in_progress (example_started b) = False"
  "log_file_handle (example_started b) =
     Some \<lparr>path = ''esp32_log_20260101_000000.csv'',
           header = [''Timestamp'', ''Master_IP'', ''Light_Value''], rows = []\<rparr>"
  by (simp_all add: example_started_def start_multicast_listener_def example_start_io_def
      initial_state_def clear_led_matrix_def create_new_log_file_def emit_def Let_def)

text \<open>
  Claim C1. Two readings reach the logger, the first of them accepted. If the clock
  reading of the second is less than the throttle interval after that of the first, the
  second call changes nothing at all: no log row, no accumulator entry, the same last
  accepted time. If it is at least the interval later, both values are in the accumulator
  in order, the last accepted time is that of the second, and with an open log and
  successful writes both rows are in the log. The addresses of the two senders play no
  role. In any state, a reading less than the interval after the last accepted time leaves
  the state as it is.
\<close>

theorem throttle_law:
  assumes first_accepted: "DATA_THROTTLE \<le> time_time ob1 - last_process_time s"
  shows "(if time_time ob2 - time_time ob1 < DATA_THROTTLE
          then log_master_data ob2 ip2 v2 (log_master_data ob1 ip1 v1 s) = log_master_data ob1 ip1 v1 s
             \<and> light_value_accumulator (log_master_data ob1 ip1 v1 s) = light_value_accumulator s @ [v1]
             \<and> last_process_time (log_master_data ob1 ip1 v1 s) = time_time ob1
          else light_value_accumulator (log_master_data ob2 ip2 v2 (log_master_data ob1 ip1 v1 s))
                 = light_value_accumulator s @ [v1, v2]
             \<and> last_process_time (log_master_data ob2 ip2 v2 (log_master_data ob1 ip1 v1 s)) = time_time ob2
             \<and> packet_count (log_master_data ob2 ip2 v2 (log_master_data ob1 ip1 v1 s)) = packet_count s + 2
             \<and> (log_file_handle s \<noteq> None \<and> \<not> write_raises ob1 \<and> \<not> write_raises ob2 \<longrightarrow>
                  logged_rows (log_master_data ob2 ip2 v2 (log_master_data ob1 ip1 v1 s)) = logged_rows s @
                    [\<lparr>row_timestamp = datetime_now ob1, row_master_ip = ip1, row_light_value = v1\<rparr>,
                     \<lparr>row_timestamp = datetime_now ob2, row_master_ip = ip2, row_light_value = v2\<rparr>]))
       \<and> (\<forall>ob ip v s'. time_time ob - last_process_time s' < DATA_THROTTLE \<longrightarrow>
             log_master_data ob ip v s' = s')"
proof -
  let ?s1 = "log_master_data ob1 ip1 v1 s"
  have l1: "last_process_time ?s1 = time_time ob1"
    and a1: "light_value_accumulator ?s1 = light_value_accumulator s @ [v1]"
    and c1: "packet_count ?s1 = packet_count s + 1"
    using log_master_data_accepted[OF first_accepted] by simp_all
  have h1: "log_file_handle s \<noteq> None \<Longrightarrow> log_file_handle ?s1 \<noteq> None"
    using first_accepted by (auto simp: log_master_data_def Let_def split: option.splits)
  show ?thesis
  proof (cases "time_time ob2 - time_time ob1 < DATA_THROTTLE")
    case True
    then have "log_master_data ob2 ip2 v2 ?s1 = ?s1"
      using l1 by (simp add: log_master_data_dropped)
    with True a1 l1 show ?thesis by (simp add: log_master_data_dropped)
  next
    case False
    then have acc2: "DATA_THROTTLE \<le> time_time ob2 - last_process_time ?s1"
      using l1 by simp
    show ?thesis
      using False log_master_data_accepted[OF acc2] a1 c1 h1
        log_master_data_accepted(4)[OF first_accepted]
      by (simp add: log_master_data_dropped)
  qed
qed

theorem throttle_law_witness:
  "DATA_THROTTLE \<le> time_time (example_ob 2000) - last_process_time (example_started True)
   \<and> log_master_data (example_ob (2000 + 1 / 20)) ''10.0.0.6'' 7
        (log_master_data (example_ob 2000) ''10.0.0.5'' 2048 (example_started True))
      = log_master_data (example_ob 2000) ''10.0.0.5'' 2048 (example_started True)
   \<and> light_value_accumulator (log_master_data (example_ob (2000 + 1 / 10)) ''10.0.0.6'' 7
        (log_master_data (example_ob 2000) ''10.0.0.5'' 2048 (example_started True))) = [2048, 7]
   \<and> logged_rows (log_master_data (example_ob (2000 + 1 / 10)) ''10.0.0.6'' 7
        (log_master_data (example_ob 2000) ''10.0.0.5'' 2048 (example_started True))) =
     [\<lparr>row_timestamp = ''2026-01-01 00:00:00.000'', row_master_ip = ''10.0.0.5'',
       row_light_value = 2048\<rparr>,
      \<lparr>row_timestamp = ''2026-01-01 00:00:00.000'', row_master_ip = ''10.0.0.6'',
       row_light_value = 7\<rparr>]"
proof -
  have h: "DATA_THROTTLE \<le> time_time (example_ob 2000) - last_process_time (example_started True)"
    by (simp add: DATA_THROTTLE_def example_ob_def example_started_fields)
  have lt: "time_time (example_ob (2000 + 1 / 20)) - time_time (example_ob 2000) < DATA_THROTTLE"
    by (simp add: DATA_THROTTLE_def example_ob_def)
  have ge: "\<not> time_time (example_ob (2000 + 1 / 10)) - time_time (example_ob 2000) < DATA_THROTTLE"
    by (simp add: DATA_THROTTLE_def example_ob_def)
  have o: "log_file_handle (example_started True) \<noteq> None" "logged_rows (example_started True) = []"
    by (simp_all add: example_started_fields logged_rows_def)
  have w: "\<not> write_raises (example_ob t)"
    "datetime_now (example_ob t) = ''2026-01-01 00:00:00.000''" for t
    by (simp_all add: example_ob_def)
  show ?thesis
    using h lt ge o w example_started_fields(2)[of True]
      throttle_law[OF h, of "example_ob (2000 + 1 / 20)" "''10.0.0.6''" 7 "''10.0.0.5''" 2048]
      throttle_law[OF h, of "example_ob (2000 + 1 / 10)" "''10.0.0.6''" 7 "''10.0.0.5''" 2048]
    by simp
qed

subsection \<open>Quantisation\<close>

lemma if_less_min: "(if (7::int) < h then 7 else h) = min 7 h"
  by simp

lemma map_value_to_height_step_bucket: "map_value_to_height m = step_bucket m"
proof -
  define c where "c = max 0 (min 4095 m)"
  define q where "q = c / (4095 / 8)"
  have c: "0 \<le> c" "c \<le> 4095" by (simp_all add: c_def)
  have nn: "0 \<le> q" "q \<le> 8" using c by (simp_all add: q_def)
  have fl: "0 \<le> \<lfloor>q\<rfloor>" "\<lfloor>q\<rfloor> \<le> 8" using nn by (simp_all add: floor_le_iff)
  have tr: "py_trunc q = \<lfloor>q\<rfloor>" using nn by (simp add: py_trunc_def)
  have "map_value_to_height m = (if 7 < py_trunc q then 7 else py_trunc q)"
    by (simp only: map_value_to_height_def MAX_LIGHT_VALUE_def LIGHT_STEP_def Let_def q_def c_def)
  also have "\<dots> = min 7 \<lfloor>q\<rfloor>"
    unfolding tr by (rule if_less_min)
  finally have code: "map_value_to_height m = min 7 \<lfloor>q\<rfloor>" .
  consider "m < 0" | "0 \<le> m" "m \<le> 4095" | "4095 < m" by linarith
  then show ?thesis
  proof cases
    case 1
    then have "m / (4095 / 8) < 0" by simp
    then have "\<lfloor>m / (4095 / 8)\<rfloor> < 0" by (simp add: floor_less_iff)
    moreover have "q = 0" using 1 by (simp add: q_def c_def)
    ultimately show ?thesis unfolding code step_bucket_def by simp
  next
    case 2
    then have qe: "m / (4095 / 8) = q" by (simp add: q_def c_def)
    show ?thesis unfolding code step_bucket_def qe using fl by simp
  next
    case 3
    then have e: "q = 8" by (simp add: q_def c_def)
    have "8 \<le> m / (4095 / 8)" using 3 by simp
    then have "8 \<le> \<lfloor>m / (4095 / 8)\<rfloor>" by (simp add: le_floor_iff)
    then show ?thesis unfolding code step_bucket_def e by simp
  qed
qed

lemma bucket_div: "max 0 (min 7 ((8 * k) div 4095)) = max 0 (min 7 (k div (512::int)))"
proof -
  consider "k < 0" | "0 \<le> k" "k < 4095" | "4095 \<le> k" by linarith
  then show ?thesis
  proof cases
    case 1
    then have "(8 * k) div 4095 < 0" "k div 512 < 0" by simp_all
    then show ?thesis by simp
  next
    case 2
    define q where "q = k div 512"
    define r where "r = k mod 512"
    have k: "k = 512 * q + r" and r: "0 \<le> r" "r < 512" by (simp_all add: q_def r_def)
    have q: "0 \<le> q" "q \<le> 7" using 2 by (simp_all add: q_def)
    have "8 * k = 4095 * q + (q + 8 * r)" using k by simp
    moreover have "0 \<le> q + 8 * r" using q r by simp
    moreover have "q + 8 * r < 4095" using q r k 2 by linarith
    ultimately have "(8 * k) div 4095 = q" by (rule int_div_pos_eq)
    then show ?thesis by (simp add: q_def)
  next
    case 3
    have "(8 * 4095) div 4095 \<le> (8 * k) div 4095" using 3 by (intro zdiv_mono1) simp_all
    moreover have "3584 div 512 \<le> k div 512" using 3 by (intro zdiv_mono1) simp_all
    ultimately show ?thesis by simp
  qed
qed

lemma step_bucket_int: "step_bucket (of_int k) = spec_bucket (of_int k)"
proof -
  have a: "(of_int k :: rat) / (4095 / 8) = of_int (8 * k) / of_int 4095" by simp
  have "\<lfloor>(of_int k :: rat) / (4095 / 8)\<rfloor> = (8 * k) div 4095"
    unfolding a by (rule floor_divide_of_int_eq)
  moreover have "\<lfloor>(of_int k :: rat) / 512\<rfloor> = k div 512"
    using floor_divide_of_int_eq[of k 512, where ?'a = rat] by simp
  ultimately show ?thesis by (simp add: step_bucket_def spec_bucket_def bucket_div)
qed

lemma average_spec_mean: "average xs = Inr m \<Longrightarrow> m = spec_mean xs"
  by (auto simp: average_def spec_mean_def Let_def split: if_splits)

lemma fire_columns:
  assumes "MATRIX_UPDATE_INTERVAL \<le> t - last_matrix_update s" "average (light_value_accumulator s) = Inr m"
  shows "matrix_columns (matrix_update_iteration t s) = deque_append MATRIX_HISTORY_SIZE (matrix_columns s) (map_value_to_height m)"
    and "light_value_accumulator (matrix_update_iteration t s) = []"
  using assms by (auto simp: matrix_update_iteration_def Let_def emit_def update_led_matrix_def)

lemma no_fire_columns:
  assumes "\<not> MATRIX_UPDATE_INTERVAL \<le> t - last_matrix_update s \<or> average (light_value_accumulator s) = Inl e"
  shows "matrix_columns (matrix_update_iteration t s) = matrix_columns s"
    and "light_value_accumulator (matrix_update_iteration t s) = light_value_accumulator s"
  using assms by (auto simp: matrix_update_iteration_def Let_def emit_def update_led_matrix_def)

text \<open>
  Claim C2, amended. When the aggregator fires and the mean \<open>m\<close> of the accumulator is
  computed (\<open>m\<close> is the arithmetic mean, 0 for an empty accumulator), the height appended
  to the history is \<open>clamp(floor(m / (4095 / 8)), 0, 7)\<close>: the step is 511.875, not 512. For
  a mean that is a whole number the two steps give the same bucket; means 0, 511, 512 and
  4095 give 0, 0, 1 and 7.
\<close>

theorem quantization_law:
  "(MATRIX_UPDATE_INTERVAL \<le> t - last_matrix_update s \<and> average (light_value_accumulator s) = Inr m \<longrightarrow>
      m = spec_mean (light_value_accumulator s) \<and>
      matrix_columns (matrix_update_iteration t s) =
        deque_append MATRIX_HISTORY_SIZE (matrix_columns s) (step_bucket m))
   \<and> step_bucket (of_int k) = spec_bucket (of_int k)
   \<and> map_value_to_height 0 = 0 \<and> map_value_to_height 511 = 0
   \<and> map_value_to_height 512 = 1 \<and> map_value_to_height 4095 = 7"
proof -
  have ex: "map_value_to_height 0 = 0 \<and> map_value_to_height 511 = 0
   \<and> map_value_to_height 512 = 1 \<and> map_value_to_height 4095 = 7"
    by code_simp
  show ?thesis
    using ex fire_columns(1)[of t s m] average_spec_mean[of "light_value_accumulator s" m]
    by (simp add: map_value_to_height_step_bucket step_bucket_int)
qed

lemma example_started_clock: "last_matrix_update (example_started b) = 1000"
  by (simp add: example_started_def start_multicast_listener_def example_start_io_def
      initial_state_def clear_led_matrix_def create_new_log_file_def emit_def Let_def)

lemma average_example: "average [1023, 1024, 1024, 1024] = Inr (4095 / 4)"
  by (simp add: average_def float_overflows_def)

lemma quantization_example_fires:
  "MATRIX_UPDATE_INTERVAL \<le> 1004 - last_matrix_update quantization_example"
  "average (light_value_accumulator quantization_example) = Inr (4095 / 4)"
  "matrix_columns quantization_example = []"
  by (simp_all add: quantization_example_def MATRIX_UPDATE_INTERVAL_def example_started_clock
      example_started_fields average_example)

theorem quantization_law_witness:
  "MATRIX_UPDATE_INTERVAL \<le> 1004 - last_matrix_update quantization_example
   \<and> average (light_value_accumulator quantization_example) = Inr (4095 / 4)
   \<and> matrix_columns (matrix_update_iteration 1004 quantization_example) = [2]"
proof -
  have "step_bucket (4095 / 4) = 2" by code_simp
  then show ?thesis
    using quantization_example_fires quantization_law[of 1004 quantization_example "4095 / 4" 0]
    by (simp add: deque_append_def MATRIX_HISTORY_SIZE_def)
qed

text \<open>
  Claim C2 as stated fails: with the accumulator \<open>[1023, 1024, 1024, 1024]\<close> the mean is
  1023.75, an exact binary fraction, and \<open>1023.75 / 511.875 = 2\<close>, so the height appended is
  2, while \<open>clamp(floor(1023.75 / 512), 0, 7) = 1\<close>.
\<close>

theorem quantization_counterexample:
  "matrix_columns (matrix_update_iteration 1004 quantization_example)
     \<noteq> matrix_columns quantization_example @
         [spec_bucket (spec_mean (light_value_accumulator quantization_example))]"
proof -
  have h: "map_value_to_height (4095 / 4) = 2" by code_simp
  have a: "matrix_columns (matrix_update_iteration 1004 quantization_example) = [2]"
    using fire_columns(1)[OF quantization_example_fires(1,2)] quantization_example_fires(3) h
    by (simp add: deque_append_def MATRIX_HISTORY_SIZE_def)
  have sm: "spec_mean (light_value_accumulator quantization_example) = 4095 / 4"
    using average_spec_mean[OF quantization_example_fires(2)] by (simp only:)
  have b: "spec_bucket (spec_mean (light_value_accumulator quantization_example)) = 1"
    unfolding sm by code_simp
  show ?thesis unfolding a b quantization_example_fires(3) by simp
qed

subsection \<open>The packet processor\<close>

lemma process_loop_short:
  assumes "packet_queue s = (message, address) # rest" "length (split_comma message) < 3"
  shows "process_loop decimal (Suc n) obs i s = process_loop decimal n obs (Suc i) (s\<lparr>packet_queue := rest\<rparr>)"
  using assms by (simp add: Let_def)

lemma process_loop_value_error:
  assumes "packet_queue s = (message, address) # rest" "3 \<le> length (split_comma message)"
    "py_int decimal (split_comma message ! 0) = None \<or> py_int decimal (split_comma message ! 1) = None"
  shows "process_loop decimal (Suc n) obs i s = (s\<lparr>packet_queue := rest\<rparr>, Some ValueError)"
  using assms by (auto simp: Let_def split: option.splits)

lemma process_loop_reading:
  assumes "packet_queue s = (message, address) # rest" "3 \<le> length (split_comma message)"
    "py_int decimal (split_comma message ! 0) = Some flag" "py_int decimal (split_comma message ! 1) = Some light_value"
  shows "process_loop decimal (Suc n) obs i s = process_loop decimal n obs (Suc i)
           (if flag = 1 then log_master_data (obs i) (fst address) light_value (s\<lparr>packet_queue := rest\<rparr>)
            else s\<lparr>packet_queue := rest\<rparr>)"
  using assms by (simp add: Let_def)

lemma process_loop_empty: "packet_queue s = [] \<Longrightarrow> process_loop decimal n obs i s = (s, None)"
  by (cases n) simp_all

lemma log_master_data_queue: "packet_queue (log_master_data ob ip v s) = packet_queue s"
  by (simp add: log_master_data_def Let_def split: option.splits)

text \<open>
  Claim C3, amended. A malformed record (fewer than 3 fields, or a second field that is not
  an integer) at the head of the queue is removed from the queue and changes nothing else:
  no log row, no accumulator entry. With fewer than 3 fields the loop goes on to the next
  record. With 3 fields or more the conversion raises ValueError, which leaves the loop:
  the invocation ends there, and the records behind stay in the queue, in their order, for
  the next invocation.
\<close>

theorem malformed_record:
  assumes "packet_queue s = (message, address) # rest" and "malformed decimal message"
  shows "(if length (split_comma message) < 3
          then process_loop decimal (Suc n) obs i s = process_loop decimal n obs (Suc i) (s\<lparr>packet_queue := rest\<rparr>)
          else process_loop decimal (Suc n) obs i s = (s\<lparr>packet_queue := rest\<rparr>, Some ValueError)
             \<and> process_packets decimal obs s = s\<lparr>packet_queue := rest\<rparr>)"
proof (cases "length (split_comma message) < 3")
  case True
  then show ?thesis using process_loop_short[OF assms(1) True] by simp
next
  case False
  then have three: "3 \<le> length (split_comma message)" by simp
  have bad: "py_int decimal (split_comma message ! 0) = None \<or> py_int decimal (split_comma message ! 1) = None"
    using assms(2) False by (simp add: malformed_def)
  have "process_loop decimal (Suc n) obs i s = (s\<lparr>packet_queue := rest\<rparr>, Some ValueError)" for n i
    by (rule process_loop_value_error[OF assms(1) three bad])
  from this[of n i] this[of 99 0] show ?thesis
    using False by (simp add: process_packets_def)
qed

lemma split_examples:
  "split_comma (ustr ''1,abc,0'') = [ustr ''1'', ustr ''abc'', ustr ''0'']"
  "split_comma (ustr ''1,2048,0,0'') = [ustr ''1'', ustr ''2048'', ustr ''0'', ustr ''0'']"
  "split_comma (ustr ''1,2048'') = [ustr ''1'', ustr ''2048'']"
  by (simp_all add: ustr_def)

lemma py_int_examples:
  "py_int example_decimal (ustr ''1'') = Some 1" "py_int example_decimal (ustr ''abc'') = None" "py_int example_decimal (ustr ''2048'') = Some 2048"
  by code_simp+

lemma malformed_examples: "malformed example_decimal (ustr ''1,abc,0'')" "malformed example_decimal (ustr ''1,2048'')" "\<not> malformed example_decimal (ustr ''1,2048,0,0'')"
  by (simp_all add: malformed_def split_examples py_int_examples)


lemma py_int_whitespace:
  "py_int decimal [160, 53] = Some 5"
  "py_int decimal [53, 133] = Some 5"
  "py_int decimal [28, 53] = None"
  "py_int decimal [53, 31] = None"
  by (simp_all add: py_int_def py_nat_def int_space_def unicode_space_def int_digit_def)

lemma py_int_arabic: "py_int example_decimal [160, 1637] = Some 5"
  by (simp add: py_int_def py_nat_def int_space_def unicode_space_def int_digit_def example_decimal_def)

lemma record_examples:
  "split_comma separator_record = [ustr ''1'', [28, 53], ustr ''0'']"
  "split_comma nbsp_record = [ustr ''1'', [160, 1637], ustr ''0'']"
  by (simp_all add: separator_record_def nbsp_record_def ustr_def)

lemma malformed_separator: "malformed decimal separator_record"
  by (simp add: malformed_def record_examples py_int_whitespace)

lemma nbsp_not_malformed:
  "\<not> malformed decimal (ustr ''1,'' @ [160, 53] @ ustr '',0'')"
  "\<not> malformed example_decimal nbsp_record"
  by (simp_all add: malformed_def nbsp_record_def ustr_def py_int_whitespace py_int_arabic)

theorem malformed_record_witness:
  "packet_queue malformed_example =
     (ustr ''1,abc,0'', (''10.0.0.5'', 5000)) # [(ustr ''1,2048,0,0'', (''10.0.0.5'', 5000))]
   \<and> malformed example_decimal (ustr ''1,abc,0'')
   \<and> process_packets example_decimal example_obs malformed_example =
       malformed_example\<lparr>packet_queue := [(ustr ''1,2048,0,0'', (''10.0.0.5'', 5000))]\<rparr>
   \<and> packet_queue short_example =
     (ustr ''1,2048'', (''10.0.0.5'', 5000)) # [(ustr ''1,2048,0,0'', (''10.0.0.5'', 5000))]
   \<and> malformed example_decimal (ustr ''1,2048'')
   \<and> process_loop example_decimal (Suc 99) example_obs 0 short_example =
       process_loop example_decimal 99 example_obs (Suc 0)
         (short_example\<lparr>packet_queue := [(ustr ''1,2048,0,0'', (''10.0.0.5'', 5000))]\<rparr>)
   \<and> packet_queue separator_example =
     (separator_record, (''10.0.0.5'', 5000)) # [(ustr ''1,2048,0,0'', (''10.0.0.5'', 5000))]
   \<and> malformed example_decimal separator_record
   \<and> process_packets example_decimal example_obs separator_example =
       separator_example\<lparr>packet_queue := [(ustr ''1,2048,0,0'', (''10.0.0.5'', 5000))]\<rparr>"
proof -
  have q: "packet_queue malformed_example =
     (ustr ''1,abc,0'', (''10.0.0.5'', 5000)) # [(ustr ''1,2048,0,0'', (''10.0.0.5'', 5000))]"
    by (simp add: malformed_example_def)
  have q': "packet_queue short_example =
     (ustr ''1,2048'', (''10.0.0.5'', 5000)) # [(ustr ''1,2048,0,0'', (''10.0.0.5'', 5000))]"
    by (simp add: short_example_def)
  have q'': "packet_queue separator_example =
     (separator_record, (''10.0.0.5'', 5000)) # [(ustr ''1,2048,0,0'', (''10.0.0.5'', 5000))]"
    by (simp add: separator_example_def)
  show ?thesis
    using q q' q'' malformed_examples(1,2) malformed_separator[of example_decimal]
      malformed_record[OF q malformed_examples(1), where n = 99 and obs = example_obs and i = 0]
      malformed_record[OF q' malformed_examples(2), where n = 99 and obs = example_obs and i = 0]
      malformed_record[OF q'' malformed_separator, where n = 99 and obs = example_obs and i = 0]
    by (simp add: split_examples record_examples)
qed

lemma process_packets_single:
  assumes "packet_queue s = [(message, address)]" "3 \<le> length (split_comma message)"
    "py_int decimal (split_comma message ! 0) = Some 1" "py_int decimal (split_comma message ! 1) = Some light_value"
  shows "process_packets decimal obs s = log_master_data (obs 0) (fst address) light_value (s\<lparr>packet_queue := []\<rparr>)"
proof -
  have "process_loop decimal (Suc 99) obs 0 s = process_loop decimal 99 obs (Suc 0)
          (log_master_data (obs 0) (fst address) light_value (s\<lparr>packet_queue := []\<rparr>))"
    by (simp only: process_loop_reading[OF assms(1,2,3,4)] simp_thms if_True)
  also have "\<dots> = (log_master_data (obs 0) (fst address) light_value (s\<lparr>packet_queue := []\<rparr>), None)"
    by (rule process_loop_empty) (simp add: log_master_data_queue)
  finally have "process_loop decimal (Suc 99) obs 0 s =
      (log_master_data (obs 0) (fst address) light_value (s\<lparr>packet_queue := []\<rparr>), None)" .
  moreover have "(100::nat) = Suc 99" by simp
  ultimately show ?thesis by (simp only: process_packets_def fst_conv)
qed

lemma wellformed_example_processed:
  "process_packets example_decimal example_obs wellformed_example =
     log_master_data (example_obs 0) ''10.0.0.5'' 2048 ((example_started True)\<lparr>packet_queue := []\<rparr>)"
proof -
  have "packet_queue wellformed_example = [(ustr ''1,2048,0,0'', (''10.0.0.5'', 5000))]"
    by (simp add: wellformed_example_def)
  from process_packets_single[OF this, where light_value = 2048 and obs = example_obs and decimal = example_decimal]
  show ?thesis by (simp add: split_examples py_int_examples wellformed_example_def)
qed

lemma example_obs_0: "time_time (example_obs 0) = 2000" "\<not> write_raises (example_obs 0)"
  "datetime_now (example_obs 0) = ''2026-01-01 00:00:00.000''"
  by (simp_all add: example_obs_def example_ob_def)

lemma nbsp_example_processed:
  "process_packets example_decimal example_obs nbsp_example =
     log_master_data (example_obs 0) ''10.0.0.5'' 5 ((example_started True)\<lparr>packet_queue := []\<rparr>)"
proof -
  have "packet_queue nbsp_example = [(nbsp_record, (''10.0.0.5'', 5000))]"
    by (simp add: nbsp_example_def)
  from process_packets_single[OF this, where light_value = 5 and obs = example_obs and decimal = example_decimal]
  show ?thesis by (simp add: record_examples py_int_examples py_int_arabic nbsp_example_def)
qed

text \<open>
  Claim C3 as stated fails: the \<open>try\<close> encloses the whole \<open>for\<close> loop. With the record
  \<open>1,abc,0\<close> in front of \<open>1,2048,0,0\<close>, the invocation ends at the first record: the
  second record is still in the queue afterwards and nothing has been accumulated or
  logged, although the same invocation on the second record alone accepts the reading.
\<close>

theorem malformed_record_counterexample:
  "packet_queue (process_packets example_decimal example_obs malformed_example) = [(ustr ''1,2048,0,0'', (''10.0.0.5'', 5000))]
   \<and> light_value_accumulator (process_packets example_decimal example_obs malformed_example) = []
   \<and> logged_rows (process_packets example_decimal example_obs malformed_example) = []
   \<and> light_value_accumulator (process_packets example_decimal example_obs wellformed_example) = [2048]"
proof -
  have q: "packet_queue malformed_example =
     (ustr ''1,abc,0'', (''10.0.0.5'', 5000)) # [(ustr ''1,2048,0,0'', (''10.0.0.5'', 5000))]"
    by (simp add: malformed_example_def)
  have three: "3 \<le> length (split_comma (ustr ''1,abc,0''))" by (simp add: split_examples)
  have bad: "py_int example_decimal (split_comma (ustr ''1,abc,0'') ! 0) = None \<or> py_int example_decimal (split_comma (ustr ''1,abc,0'') ! 1) = None"
    by (simp add: split_examples py_int_examples)
  have "process_loop example_decimal (Suc 99) example_obs 0 malformed_example =
      (malformed_example\<lparr>packet_queue := [(ustr ''1,2048,0,0'', (''10.0.0.5'', 5000))]\<rparr>, Some ValueError)"
    by (rule process_loop_value_error[OF q three bad])
  then have a: "process_packets example_decimal example_obs malformed_example =
      malformed_example\<lparr>packet_queue := [(ustr ''1,2048,0,0'', (''10.0.0.5'', 5000))]\<rparr>"
    by (simp add: process_packets_def)
  have t: "DATA_THROTTLE \<le> time_time (example_obs 0) - last_process_time ((example_started True)\<lparr>packet_queue := []\<rparr>)"
    by (simp add: example_obs_0 example_started_fields DATA_THROTTLE_def)
  show ?thesis
    unfolding a wellformed_example_processed
    using log_master_data_accepted(2)[OF t]
    by (simp add: malformed_example_def example_started_fields logged_rows_def)
qed

text \<open>
  Claim C4, amended. A record at the head of the queue with at least 3 fields, first field
  1 and an integer second field, that passes the throttle while a session log file is open
  and whose write does not raise, adds exactly one row to the log: the light value is the
  parsed integer and the master IP is the sender's address. The record \<open>1,2048,0,0\<close> from
  10.0.0.5 gives the one row with master IP 10.0.0.5 and light value 2048.
\<close>

theorem accepted_reading_logged:
  assumes queue: "packet_queue s = (message, address) # rest"
    and fields: "3 \<le> length (split_comma message)"
    and master: "py_int decimal (split_comma message ! 0) = Some 1"
    and val: "py_int decimal (split_comma message ! 1) = Some light_value"
    and throttle: "DATA_THROTTLE \<le> time_time (obs i) - last_process_time s"
    and log_open: "log_file_handle s \<noteq> None"
    and write_ok: "\<not> write_raises (obs i)"
  shows "process_loop decimal (Suc n) obs i s = process_loop decimal n obs (Suc i)
           (log_master_data (obs i) (fst address) light_value (s\<lparr>packet_queue := rest\<rparr>))
       \<and> logged_rows (log_master_data (obs i) (fst address) light_value (s\<lparr>packet_queue := rest\<rparr>))
           = logged_rows s @ [\<lparr>row_timestamp = datetime_now (obs i), row_master_ip = fst address,
                                row_light_value = light_value\<rparr>]"
proof -
  have t: "DATA_THROTTLE \<le> time_time (obs i) - last_process_time (s\<lparr>packet_queue := rest\<rparr>)"
    using throttle by simp
  have o: "log_file_handle (s\<lparr>packet_queue := rest\<rparr>) \<noteq> None" using log_open by simp
  show ?thesis
    using process_loop_reading[OF queue fields master val, where n = n and obs = obs and i = i]
      log_master_data_accepted(4)[OF t o write_ok, of "fst address" light_value]
    by (simp add: logged_rows_def)
qed

theorem accepted_reading_logged_witness:
  "packet_queue wellformed_example = (ustr ''1,2048,0,0'', (''10.0.0.5'', 5000)) # []
   \<and> py_int example_decimal (split_comma (ustr ''1,2048,0,0'') ! 0) = Some 1
   \<and> py_int example_decimal (split_comma (ustr ''1,2048,0,0'') ! 1) = Some 2048
   \<and> DATA_THROTTLE \<le> time_time (example_obs 0) - last_process_time wellformed_example
   \<and> log_file_handle wellformed_example \<noteq> None
   \<and> logged_rows (process_packets example_decimal example_obs wellformed_example) =
       [\<lparr>row_timestamp = ''2026-01-01 00:00:00.000'', row_master_ip = ''10.0.0.5'',
         row_light_value = 2048\<rparr>]
   \<and> packet_queue nbsp_example = (nbsp_record, (''10.0.0.5'', 5000)) # []
   \<and> py_int example_decimal (split_comma nbsp_record ! 1) = Some 5
   \<and> logged_rows (process_packets example_decimal example_obs nbsp_example) =
       [\<lparr>row_timestamp = ''2026-01-01 00:00:00.000'', row_master_ip = ''10.0.0.5'',
         row_light_value = 5\<rparr>]"
proof -
  have q: "packet_queue wellformed_example = (ustr ''1,2048,0,0'', (''10.0.0.5'', 5000)) # []"
    by (simp add: wellformed_example_def)
  have f: "3 \<le> length (split_comma (ustr ''1,2048,0,0''))" by (simp add: split_examples)
  have m: "py_int example_decimal (split_comma (ustr ''1,2048,0,0'') ! 0) = Some 1"
    and v: "py_int example_decimal (split_comma (ustr ''1,2048,0,0'') ! 1) = Some 2048"
    by (simp_all add: split_examples py_int_examples)
  have t: "DATA_THROTTLE \<le> time_time (example_obs 0) - last_process_time wellformed_example"
    by (simp add: example_obs_0 wellformed_example_def example_started_fields DATA_THROTTLE_def)
  have l: "log_file_handle wellformed_example \<noteq> None"
    by (simp add: wellformed_example_def example_started_fields)
  have r: "logged_rows wellformed_example = []"
    by (simp add: wellformed_example_def example_started_fields logged_rows_def)
  have e: "wellformed_example\<lparr>packet_queue := []\<rparr> = (example_started True)\<lparr>packet_queue := []\<rparr>"
    by (simp add: wellformed_example_def)
  have q2: "packet_queue nbsp_example = (nbsp_record, (''10.0.0.5'', 5000)) # []"
    by (simp add: nbsp_example_def)
  have f2: "3 \<le> length (split_comma nbsp_record)" by (simp add: record_examples)
  have m2: "py_int example_decimal (split_comma nbsp_record ! 0) = Some 1"
    and v2: "py_int example_decimal (split_comma nbsp_record ! 1) = Some 5"
    by (simp_all add: record_examples py_int_examples py_int_arabic)
  have t2: "DATA_THROTTLE \<le> time_time (example_obs 0) - last_process_time nbsp_example"
    by (simp add: example_obs_0 nbsp_example_def example_started_fields DATA_THROTTLE_def)
  have l2: "log_file_handle nbsp_example \<noteq> None"
    by (simp add: nbsp_example_def example_started_fields)
  have r2: "logged_rows nbsp_example = []"
    by (simp add: nbsp_example_def example_started_fields logged_rows_def)
  have e2: "nbsp_example\<lparr>packet_queue := []\<rparr> = (example_started True)\<lparr>packet_queue := []\<rparr>"
    by (simp add: nbsp_example_def)
  have a: "logged_rows (process_packets example_decimal example_obs wellformed_example) =
       [\<lparr>row_timestamp = ''2026-01-01 00:00:00.000'', row_master_ip = ''10.0.0.5'',
         row_light_value = 2048\<rparr>]"
    using accepted_reading_logged[where obs = example_obs and i = 0 and n = 99
        and decimal = example_decimal, OF q f m v t l example_obs_0(2)]
    by (simp add: wellformed_example_processed e r example_obs_0)
  have b: "logged_rows (process_packets example_decimal example_obs nbsp_example) =
       [\<lparr>row_timestamp = ''2026-01-01 00:00:00.000'', row_master_ip = ''10.0.0.5'',
         row_light_value = 5\<rparr>]"
    using accepted_reading_logged[where obs = example_obs and i = 0 and n = 99
        and decimal = example_decimal, OF q2 f2 m2 v2 t2 l2 example_obs_0(2)]
    by (simp add: nbsp_example_processed e2 r2 example_obs_0)
  show ?thesis using q m v t l a q2 v2 b by blast
qed

lemma stopped_example_fields:
  "packet_queue stopped_example = [(ustr ''1,2048,0,0'', (''10.0.0.5'', 5000))]"
  "log_file_handle stopped_example = None"
  "last_process_time stopped_example = 0"
  "light_value_accumulator stopped_example = []"
  by (simp_all add: stopped_example_def stop_multicast_listener_def enqueue_packet_def close_log_file_def
      example_started_fields Let_def emit_def strip_def unicode_space_def ustr_def split: option.splits)

text \<open>
  Claim C4 as stated fails: \<open>log_master_data\<close> writes a row only when a log file is open.
  Between the stop and the restart of a reset the main loop still processes the queue: the
  reading 2048 passes the throttle and enters the accumulator, and no row is written.
\<close>

theorem accepted_reading_counterexample:
  "light_value_accumulator (process_packets example_decimal example_obs stopped_example) = [2048]
   \<and> last_process_time (process_packets example_decimal example_obs stopped_example) = 2000
   \<and> log_file_handle (process_packets example_decimal example_obs stopped_example) = None
   \<and> logged_rows (process_packets example_decimal example_obs stopped_example) = []"
proof -
  have p: "process_packets example_decimal example_obs stopped_example =
      log_master_data (example_obs 0) ''10.0.0.5'' 2048 (stopped_example\<lparr>packet_queue := []\<rparr>)"
    using process_packets_single[OF stopped_example_fields(1), where light_value = 2048 and obs = example_obs and decimal = example_decimal]
    by (simp add: split_examples py_int_examples)
  show ?thesis unfolding p
    by (simp add: log_master_data_def Let_def stopped_example_fields example_obs_0 DATA_THROTTLE_def
        logged_rows_def)
qed

subsection \<open>What each function changes\<close>

lemma emit_emit: "emit es' (emit es s) = emit (es @ es') s"
  by (simp add: emit_def)

lemma emit_fields:
  "MATRIX_ENABLED (emit es s) = MATRIX_ENABLED s"
  "listening_thread (emit es s) = listening_thread s"
  "stop_listening (emit es s) = stop_listening s"
  "current_log_file (emit es s) = current_log_file s"
  "log_file_handle (emit es s) = log_file_handle s"
  "reset_in_progress (emit es s) = reset_in_progress s"
  "packet_queue (emit es s) = packet_queue s"
  "matrix_columns (emit es s) = matrix_columns s"
  "last_matrix_update (emit es s) = last_matrix_update s"
  "light_value_accumulator (emit es s) = light_value_accumulator s"
  "packet_count (emit es s) = packet_count s"
  "last_process_time (emit es s) = last_process_time s"
  "trace (emit es s) = trace s @ es"
  by (simp_all add: emit_def)

lemma send_loop_emits: "\<exists>es. fst (send_loop n i f s) = emit es s \<and> set es \<subseteq> {SendTo reset_message, Sleep (1 / 10)}"
proof (induction n arbitrary: i s)
  case 0
  have "s = emit [] s" by (simp add: emit_def)
  then show ?case by (metis empty_set empty_subsetI fst_conv send_loop.simps(1))
next
  case (Suc n)
  show ?case
  proof (cases "f = Some i")
    case True
    have "s = emit [] s" by (simp add: emit_def)
    with True show ?thesis by (metis empty_set empty_subsetI fst_conv send_loop.simps(2))
  next
    case False
    from Suc.IH[of "Suc i" "emit [SendTo reset_message, Sleep (1 / 10)] s"]
    obtain es where "fst (send_loop n (Suc i) f (emit [SendTo reset_message, Sleep (1 / 10)] s))
        = emit es (emit [SendTo reset_message, Sleep (1 / 10)] s)" "set es \<subseteq> {SendTo reset_message, Sleep (1 / 10)}"
      by blast
    then show ?thesis using False
      by (intro exI[of _ "[SendTo reset_message, Sleep (1 / 10)] @ es"]) (simp add: emit_emit)
  qed
qed

lemma send_loop_ok: "snd (send_loop n i None s) = None"
  by (induction n arbitrary: i s) simp_all

lemma send_reset_command_emits:
  "\<exists>es. fst (send_reset_command f s) = emit es s \<and> set es \<subseteq> {SendTo reset_message, Sleep (1 / 10)}"
  unfolding send_reset_command_def by (rule send_loop_emits)

lemma send_reset_command_ok: "snd (send_reset_command None s) = None"
  unfolding send_reset_command_def by (rule send_loop_ok)

lemma stop_fields:
  "stop_listening (stop_multicast_listener s) = True"
  "listening_thread (stop_multicast_listener s) = None"
  "log_file_handle (stop_multicast_listener s) = None"
  "trace (stop_multicast_listener s) =
     trace s @ (case listening_thread s of None \<Rightarrow> [] | Some t \<Rightarrow> [Join t 3])"
  "MATRIX_ENABLED (stop_multicast_listener s) = MATRIX_ENABLED s"
  "reset_in_progress (stop_multicast_listener s) = reset_in_progress s"
  "packet_queue (stop_multicast_listener s) = packet_queue s"
  "matrix_columns (stop_multicast_listener s) = matrix_columns s"
  "light_value_accumulator (stop_multicast_listener s) = light_value_accumulator s"
  by (simp_all add: stop_multicast_listener_def close_log_file_def emit_def Let_def split: option.splits)

lemma clear_fields:
  "reset_in_progress (clear_led_matrix c s) = reset_in_progress s"
  "listening_thread (clear_led_matrix c s) = listening_thread s"
  "packet_queue (clear_led_matrix c s) = packet_queue s"
  "MATRIX_ENABLED (clear_led_matrix c s) = MATRIX_ENABLED s"
  "stop_listening (clear_led_matrix c s) = stop_listening s"
  "log_file_handle (clear_led_matrix c s) = log_file_handle s"
  "matrix_columns (clear_led_matrix c s) = (if MATRIX_ENABLED s \<and> \<not> c then [] else matrix_columns s)"
  "light_value_accumulator (clear_led_matrix c s) =
     (if MATRIX_ENABLED s \<and> \<not> c then [] else light_value_accumulator s)"
  "trace (clear_led_matrix c s) = trace s @ (if MATRIX_ENABLED s \<and> \<not> c then [DisplayClear] else [])"
  by (simp_all add: clear_led_matrix_def emit_def)

lemma start_fields:
  "packet_queue (fst (start_multicast_listener io s)) = []"
  "packet_count (fst (start_multicast_listener io s)) = 0"
  "last_process_time (fst (start_multicast_listener io s)) = 0"
  "last_matrix_update (fst (start_multicast_listener io s)) = start_time io"
  "stop_listening (fst (start_multicast_listener io s)) = False"
  "reset_in_progress (fst (start_multicast_listener io s)) = reset_in_progress s"
  "MATRIX_ENABLED (fst (start_multicast_listener io s)) = MATRIX_ENABLED s"
  "matrix_columns (fst (start_multicast_listener io s)) =
     (if MATRIX_ENABLED s \<and> \<not> start_clear_raises io then [] else matrix_columns s)"
  "light_value_accumulator (fst (start_multicast_listener io s)) =
     (if MATRIX_ENABLED s \<and> \<not> start_clear_raises io then [] else light_value_accumulator s)"
  "listening_thread (fst (start_multicast_listener io s)) =
     (if start_open_raises io then listening_thread s else Some Listener)"
  "log_file_handle (fst (start_multicast_listener io s)) =
     (if start_open_raises io then log_file_handle s
      else Some \<lparr>path = start_file_name io,
                 header = [''Timestamp'', ''Master_IP'', ''Light_Value''], rows = []\<rparr>)"
  "current_log_file (fst (start_multicast_listener io s)) = Some (start_file_name io)"
  "trace (fst (start_multicast_listener io s)) =
     trace s @ (if MATRIX_ENABLED s \<and> \<not> start_clear_raises io then [DisplayClear] else [])
       @ (if start_open_raises io then []
          else Start Listener # (if MATRIX_ENABLED s then [Start MatrixUpdater] else []))"
  by (simp_all add: start_multicast_listener_def clear_led_matrix_def create_new_log_file_def
      emit_def Let_def)

lemma start_ignores_queue:
  "start_multicast_listener io (s\<lparr>packet_queue := q\<rparr>) = start_multicast_listener io s"
  by (simp add: start_multicast_listener_def clear_led_matrix_def create_new_log_file_def
      emit_def Let_def)

lemma handler_fields:
  "reset_in_progress (button_pressed_handler s) = True"
  "trace (button_pressed_handler s) = trace s @ [LedOn, Sleep (1 / 10), LedOff]
      @ (if reset_in_progress s then [] else [Start ResetSequence])"
  "listening_thread (button_pressed_handler s) = listening_thread s"
  "matrix_columns (button_pressed_handler s) = matrix_columns s"
  "MATRIX_ENABLED (button_pressed_handler s) = MATRIX_ENABLED s"
  by (simp_all add: button_pressed_handler_def emit_def Let_def)

lemma handle_reset_sequence_steps:
  "handle_reset_sequence io s =
     (case reset_step io AtStop s of
        (s1, _) \<Rightarrow>
          (case reset_step io AtBroadcast s1 of
             (s2, None) \<Rightarrow> s2
           | (s2, Some _) \<Rightarrow> fst (reset_step io AtRestart s2)))"
  by (simp add: handle_reset_sequence_def Let_def split: prod.splits option.splits)

subsection \<open>The reset sequence\<close>

lemma handle_reset_sequence_ok:
  assumes "send_raises_at io = None"
  shows "\<exists>es. handle_reset_sequence io s =
     (fst (start_multicast_listener (restart_io io)
        (emit es (clear_led_matrix (reset_clear_raises io) (stop_multicast_listener (emit [LedOn] s))))))
     \<lparr>reset_in_progress := False\<rparr>"
proof -
  let ?s3 = "clear_led_matrix (reset_clear_raises io) (stop_multicast_listener (emit [LedOn] s))"
  obtain es where es: "fst (send_reset_command None ?s3) = emit es ?s3"
    using send_reset_command_emits by blast
  have "send_reset_command None ?s3 = (emit es ?s3, None)"
    using es send_reset_command_ok[of ?s3] by (simp add: prod_eq_iff)
  then have "handle_reset_sequence io s =
     (fst (start_multicast_listener (restart_io io) (emit (es @ [Sleep 3, LedOff, Sleep 5]) ?s3)))
     \<lparr>reset_in_progress := False\<rparr>"
    using assms by (simp add: handle_reset_sequence_def Let_def emit_emit)
  then show ?thesis by blast
qed

text \<open>
  Claim C5. After the reset sequence, whatever its observations and so whichever of its
  steps raised, \<open>reset_in_progress\<close> is false, and the next press of the button sets the flag
  and starts a new reset sequence. The same holds when other threads run between the steps
  of the sequence: the step that ends the sequence leaves the flag false.
\<close>

theorem reset_clears_flag:
  "\<not> reset_in_progress (handle_reset_sequence io s)
   \<and> reset_in_progress (button_pressed_handler (handle_reset_sequence io s))
   \<and> trace (button_pressed_handler (handle_reset_sequence io s)) =
       trace (handle_reset_sequence io s) @ [LedOn, Sleep (1 / 10), LedOff, Start ResetSequence]
   \<and> (\<forall>pc s'. reset_step io pc s = (s', None) \<longrightarrow> \<not> reset_in_progress s')"
proof -
  have a: "\<not> reset_in_progress (handle_reset_sequence io s)"
    by (simp add: handle_reset_sequence_def Let_def)
  have b: "\<not> reset_in_progress s'" if "reset_step io pc s = (s', None)" for pc s'
    using that by (cases pc) (auto split: prod.splits option.splits)
  show ?thesis using a b by (simp add: handler_fields)
qed

lemma failing_send: "snd (send_reset_command (Some 3) s) = Some OSError"
  by (simp add: send_reset_command_def eval_nat_numeral)

lemma reset_step_broadcast_raises:
  assumes "snd (send_reset_command (send_raises_at io) s) = Some e"
  shows "reset_step io AtBroadcast s = (fst (reset_step io AtBroadcast s), None)"
  using assms by (cases "send_reset_command (send_raises_at io) s") auto

theorem reset_clears_flag_witness:
  "snd (send_reset_command (send_raises_at failing_reset_io)
         (fst (reset_step failing_reset_io AtStop pressed_example))) = Some OSError
   \<and> reset_in_progress pressed_example
   \<and> \<not> reset_in_progress (handle_reset_sequence failing_reset_io pressed_example)
   \<and> \<not> reset_in_progress (fst (reset_step failing_reset_io AtBroadcast
         (fst (reset_step failing_reset_io AtStop pressed_example))))"
proof -
  have f: "send_raises_at failing_reset_io = Some 3" by (simp add: failing_reset_io_def)
  have s': "reset_step failing_reset_io AtBroadcast
       (fst (reset_step failing_reset_io AtStop pressed_example)) =
     (fst (reset_step failing_reset_io AtBroadcast
       (fst (reset_step failing_reset_io AtStop pressed_example))), None)"
    by (rule reset_step_broadcast_raises[where e = OSError]) (simp only: f failing_send)
  have a: "\<not> reset_in_progress (handle_reset_sequence failing_reset_io pressed_example)"
    using reset_clears_flag[of failing_reset_io pressed_example] by blast
  have b: "\<not> reset_in_progress (fst (reset_step failing_reset_io AtBroadcast
         (fst (reset_step failing_reset_io AtStop pressed_example))))"
    using reset_clears_flag[of failing_reset_io "fst (reset_step failing_reset_io AtStop pressed_example)"] s'
    by blast
  have c: "reset_in_progress pressed_example"
    by (simp add: pressed_example_def handler_fields)
  have d: "snd (send_reset_command (send_raises_at failing_reset_io)
         (fst (reset_step failing_reset_io AtStop pressed_example))) = Some OSError"
    by (simp only: f failing_send)
  show ?thesis using a b c d by blast
qed

lemma example_started_trace:
  "trace (example_started True) = [DisplayClear, Start Listener, Start MatrixUpdater]"
  "listening_thread (example_started b) = Some Listener"
  by (simp_all add: example_started_def start_fields example_start_io_def initial_state_def)

text \<open>
  Claim C6 as stated fails: the aggregator's thread is a local variable of
  \<open>start_multicast_listener\<close> and is never joined. After a start with the display enabled
  both threads have been started, and the stop joins the receiver only.
\<close>

theorem stop_step_counterexample:
  "Start MatrixUpdater \<in> set (trace (example_started True))
   \<and> trace (stop_multicast_listener (example_started True)) =
       trace (example_started True) @ [Join Listener 3]
   \<and> Join MatrixUpdater 3 \<notin> set (trace (stop_multicast_listener (example_started True)))"
  by (simp add: stop_fields example_started_trace)

text \<open>
  Claim C7, amended. With the display enabled, and when neither of the two calls of the
  display's \<open>clear()\<close> raises, no \<open>sendto\<close> raises and the new log file can be opened, the
  reset sequence clears the history and the accumulator in its clearing step, and it ends
  with an empty history, an empty accumulator and a new log file without data rows: apart
  from the events so far, the state is the one after the initial start.
\<close>

theorem reset_restarts_fresh:
  assumes enabled: "MATRIX_ENABLED s"
    and no_raise: "\<not> reset_clear_raises io" "send_raises_at io = None"
      "\<not> start_clear_raises (restart_io io)" "\<not> start_open_raises (restart_io io)"
  shows "matrix_columns (fst (reset_step io AtStop s)) = []
   \<and> light_value_accumulator (fst (reset_step io AtStop s)) = []
   \<and> matrix_columns (handle_reset_sequence io s) = []
   \<and> light_value_accumulator (handle_reset_sequence io s) = []
   \<and> log_file_handle (handle_reset_sequence io s) =
       Some \<lparr>path = start_file_name (restart_io io),
             header = [''Timestamp'', ''Master_IP'', ''Light_Value''], rows = []\<rparr>
   \<and> (handle_reset_sequence io s)\<lparr>trace := []\<rparr> =
       (fst (start_multicast_listener (restart_io io) (initial_state True)))\<lparr>trace := []\<rparr>"
proof -
  obtain es where h: "handle_reset_sequence io s =
     (fst (start_multicast_listener (restart_io io)
        (emit es (clear_led_matrix (reset_clear_raises io) (stop_multicast_listener (emit [LedOn] s))))))
     \<lparr>reset_in_progress := False\<rparr>"
    using handle_reset_sequence_ok[OF no_raise(2)] by blast
  have stop: "matrix_columns (fst (reset_step io AtStop s)) = []
     \<and> light_value_accumulator (fst (reset_step io AtStop s)) = []"
    using enabled no_raise(1) by (simp add: clear_fields stop_fields emit_fields)
  have eq: "(handle_reset_sequence io s)\<lparr>trace := []\<rparr> =
       (fst (start_multicast_listener (restart_io io) (initial_state True)))\<lparr>trace := []\<rparr>"
    unfolding h using enabled no_raise
    by (intro state.equality)
      (simp_all add: start_fields emit_fields clear_fields stop_fields initial_state_def)
  have fields: "matrix_columns (handle_reset_sequence io s) = []
     \<and> light_value_accumulator (handle_reset_sequence io s) = []
     \<and> log_file_handle (handle_reset_sequence io s) =
       Some \<lparr>path = start_file_name (restart_io io),
             header = [''Timestamp'', ''Master_IP'', ''Light_Value''], rows = []\<rparr>"
    unfolding h using enabled no_raise
    by (simp add: start_fields emit_fields clear_fields stop_fields)
  show ?thesis using stop eq fields by simp
qed


lemma example_reset_io_fields:
  "\<not> reset_clear_raises example_reset_io" "send_raises_at example_reset_io = None"
  "\<not> start_clear_raises (restart_io example_reset_io)"
  "\<not> start_open_raises (restart_io example_reset_io)"
  "restart_io example_reset_io = example_start_io"
  by (simp_all add: example_reset_io_def example_start_io_def)

lemma busy_example_fields:
  "MATRIX_ENABLED busy_example"
  "matrix_columns busy_example = [7, 0, 0, 0, 0, 0, 0, 0]"
  "light_value_accumulator busy_example = [4095, 2048]"
  "packet_queue busy_example = [(ustr ''1,2048,0,0'', (''10.0.0.5'', 5000))]"
  "logged_rows busy_example =
     [\<lparr>row_timestamp = ''2026-01-01 00:00:01.000'', row_master_ip = ''10.0.0.5'',
       row_light_value = 4095\<rparr>]"
  by (simp_all add: busy_example_def example_started_fields logged_rows_def)

theorem reset_restarts_fresh_witness:
  "MATRIX_ENABLED busy_example
   \<and> \<not> reset_clear_raises example_reset_io \<and> send_raises_at example_reset_io = None
   \<and> \<not> start_clear_raises (restart_io example_reset_io)
   \<and> \<not> start_open_raises (restart_io example_reset_io)
   \<and> matrix_columns busy_example = [7, 0, 0, 0, 0, 0, 0, 0]
   \<and> light_value_accumulator busy_example = [4095, 2048]
   \<and> logged_rows busy_example =
       [\<lparr>row_timestamp = ''2026-01-01 00:00:01.000'', row_master_ip = ''10.0.0.5'',
         row_light_value = 4095\<rparr>]
   \<and> matrix_columns (fst (reset_step example_reset_io AtStop busy_example)) = []
   \<and> light_value_accumulator (fst (reset_step example_reset_io AtStop busy_example)) = []
   \<and> matrix_columns (handle_reset_sequence example_reset_io busy_example) = []
   \<and> light_value_accumulator (handle_reset_sequence example_reset_io busy_example) = []
   \<and> logged_rows (handle_reset_sequence example_reset_io busy_example) = []
   \<and> (handle_reset_sequence example_reset_io busy_example)\<lparr>trace := []\<rparr> =
       (example_started True)\<lparr>trace := []\<rparr>"
proof -
  note T = reset_restarts_fresh[OF busy_example_fields(1) example_reset_io_fields(1-4)]
  have a: "matrix_columns (fst (reset_step example_reset_io AtStop busy_example)) = []"
    and b: "light_value_accumulator (fst (reset_step example_reset_io AtStop busy_example)) = []"
    and c: "matrix_columns (handle_reset_sequence example_reset_io busy_example) = []"
    and d: "light_value_accumulator (handle_reset_sequence example_reset_io busy_example) = []"
    and e: "log_file_handle (handle_reset_sequence example_reset_io busy_example) =
       Some \<lparr>path = start_file_name (restart_io example_reset_io),
             header = [''Timestamp'', ''Master_IP'', ''Light_Value''], rows = []\<rparr>"
    and f: "(handle_reset_sequence example_reset_io busy_example)\<lparr>trace := []\<rparr> =
       (fst (start_multicast_listener (restart_io example_reset_io) (initial_state True)))\<lparr>trace := []\<rparr>"
    using T by blast+
  have g: "logged_rows (handle_reset_sequence example_reset_io busy_example) = []"
    using e by (simp add: logged_rows_def)
  have h: "(handle_reset_sequence example_reset_io busy_example)\<lparr>trace := []\<rparr> =
       (example_started True)\<lparr>trace := []\<rparr>"
    using f by (simp add: example_reset_io_fields(5) example_started_def)
  show ?thesis
    using busy_example_fields(1,2,3,5) example_reset_io_fields(1-4) a b c d g h by blast
qed

lemma handle_reset_sequence_disabled:
  assumes "\<not> MATRIX_ENABLED s"
  shows "light_value_accumulator (handle_reset_sequence io s) = light_value_accumulator s"
proof -
  let ?s3 = "clear_led_matrix (reset_clear_raises io) (stop_multicast_listener (emit [LedOn] s))"
  obtain es where es: "fst (send_reset_command (send_raises_at io) ?s3) = emit es ?s3"
    using send_reset_command_emits by blast
  obtain s4 r where r: "send_reset_command (send_raises_at io) ?s3 = (s4, r)"
    by (cases "send_reset_command (send_raises_at io) ?s3")
  then have s4: "s4 = emit es ?s3" using es by simp
  show ?thesis
    using assms
    by (cases r)
      (simp_all add: handle_reset_sequence_def Let_def r s4 start_fields emit_fields clear_fields
        stop_fields)
qed

lemma enqueue_fields:
  "packet_queue (enqueue_packet d a s) = packet_queue s @ [(strip d, a)]"
  "light_value_accumulator (enqueue_packet d a s) = light_value_accumulator s"
  "last_process_time (enqueue_packet d a s) = last_process_time s"
  "log_file_handle (enqueue_packet d a s) = log_file_handle s"
  "MATRIX_ENABLED (enqueue_packet d a s) = MATRIX_ENABLED s"
  "reset_in_progress (enqueue_packet d a s) = reset_in_progress s"
  "listening_thread (enqueue_packet d a s) = listening_thread s"
  "matrix_columns (enqueue_packet d a s) = matrix_columns s"
  "trace (enqueue_packet d a s) = trace s"
  by (simp_all add: enqueue_packet_def)

lemma strip_example: "strip (ustr ''1,2048,0,0'') = ustr ''1,2048,0,0''"
  by (simp add: strip_def unicode_space_def ustr_def)

lemma process_packets_example:
  assumes "packet_queue s = [(ustr ''1,2048,0,0'', (''10.0.0.5'', 5000))]"
    and "last_process_time s = 0"
  shows "light_value_accumulator (process_packets example_decimal example_obs s) = light_value_accumulator s @ [2048]"
    and "packet_queue (process_packets example_decimal example_obs s) = []"
    and "MATRIX_ENABLED (process_packets example_decimal example_obs s) = MATRIX_ENABLED s"
proof -
  have p: "process_packets example_decimal example_obs s =
      log_master_data (example_obs 0) ''10.0.0.5'' 2048 (s\<lparr>packet_queue := []\<rparr>)"
    using process_packets_single[OF assms(1), where light_value = 2048 and obs = example_obs and decimal = example_decimal]
    by (simp add: split_examples py_int_examples)
  have t: "DATA_THROTTLE \<le> time_time (example_obs 0) - last_process_time (s\<lparr>packet_queue := []\<rparr>)"
    using assms(2) by (simp add: example_obs_0 DATA_THROTTLE_def)
  show "light_value_accumulator (process_packets example_decimal example_obs s) = light_value_accumulator s @ [2048]"
    unfolding p using log_master_data_accepted(2)[OF t] by simp
  show "packet_queue (process_packets example_decimal example_obs s) = []"
    unfolding p by (simp add: log_master_data_queue)
  show "MATRIX_ENABLED (process_packets example_decimal example_obs s) = MATRIX_ENABLED s"
    unfolding p by (simp add: log_master_data_def Let_def split: option.splits)
qed

text \<open>
  Claim C7 as stated fails: \<open>clear_led_matrix\<close> returns at once when the display is
  disabled, while \<open>log_master_data\<close> fills the accumulator all the same. The accumulator
  holds 2048 before the reset sequence and still holds it afterwards.
\<close>

theorem reset_restarts_fresh_counterexample:
  "light_value_accumulator disabled_example = [2048]
   \<and> light_value_accumulator (handle_reset_sequence example_reset_io disabled_example) = [2048]"
proof -
  let ?s = "enqueue_packet (ustr ''1,2048,0,0'') (''10.0.0.5'', 5000) (example_started False)"
  have q: "packet_queue ?s = [(ustr ''1,2048,0,0'', (''10.0.0.5'', 5000))]"
    and l: "last_process_time ?s = 0"
    by (simp_all add: enqueue_fields example_started_fields strip_example)
  have a: "light_value_accumulator disabled_example = [2048]"
    and d: "\<not> MATRIX_ENABLED disabled_example"
    using process_packets_example(1,3)[OF q l]
    by (simp_all add: disabled_example_def button_pressed_handler_def emit_def Let_def
        enqueue_fields example_started_fields)
  show ?thesis using a handle_reset_sequence_disabled[OF d] by simp
qed

lemma send_loop_None:
  "send_loop n i None s = (emit (concat (replicate n [SendTo reset_message, Sleep (1 / 10)])) s, None)"
proof (induction n arbitrary: i s)
  case 0
  show ?case by (simp add: emit_def)
next
  case (Suc n)
  show ?case by (simp add: Suc.IH emit_emit)
qed

lemma queue_commutes:
  "emit es (s\<lparr>packet_queue := q\<rparr>) = (emit es s)\<lparr>packet_queue := q\<rparr>"
  "stop_multicast_listener (s\<lparr>packet_queue := q\<rparr>) = (stop_multicast_listener s)\<lparr>packet_queue := q\<rparr>"
  "clear_led_matrix c (s\<lparr>packet_queue := q\<rparr>) = (clear_led_matrix c s)\<lparr>packet_queue := q\<rparr>"
  by (simp_all add: emit_def stop_multicast_listener_def close_log_file_def clear_led_matrix_def
      Let_def split: option.splits)

lemma handle_reset_sequence_None:
  assumes "send_raises_at io = None"
  shows "handle_reset_sequence io s =
     (fst (start_multicast_listener (restart_io io)
        (emit (concat (replicate 10 [SendTo reset_message, Sleep (1 / 10)]) @ [Sleep 3, LedOff, Sleep 5])
           (clear_led_matrix (reset_clear_raises io) (stop_multicast_listener (emit [LedOn] s))))))
     \<lparr>reset_in_progress := False\<rparr>"
  using assms
  by (simp add: handle_reset_sequence_def Let_def send_reset_command_def send_loop_None emit_emit)

text \<open>
  Claim C10, amended. A start of the pipeline leaves the queue empty, and its result does
  not depend on what the queue held: the records in the queue at that moment are dropped
  without being decoded, logged or accumulated. The same holds for the restarting step of
  a reset sequence, and for a whole reset sequence in which no \<open>sendto\<close> raises.
\<close>

theorem start_clears_queue:
  "packet_queue (fst (start_multicast_listener io s)) = []
   \<and> start_multicast_listener io (s\<lparr>packet_queue := q\<rparr>) = start_multicast_listener io s
   \<and> packet_queue (fst (reset_step rio AtRestart s)) = []
   \<and> reset_step rio AtRestart (s\<lparr>packet_queue := q\<rparr>) = reset_step rio AtRestart s
   \<and> (send_raises_at rio = None \<longrightarrow>
        packet_queue (handle_reset_sequence rio s) = []
        \<and> handle_reset_sequence rio (s\<lparr>packet_queue := q\<rparr>) = handle_reset_sequence rio s)"
proof -
  have a: "packet_queue (handle_reset_sequence rio s) = []
        \<and> handle_reset_sequence rio (s\<lparr>packet_queue := q\<rparr>) = handle_reset_sequence rio s"
    if "send_raises_at rio = None"
    unfolding handle_reset_sequence_None[OF that]
    by (simp add: start_fields queue_commutes start_ignores_queue)
  show ?thesis using a by (simp add: start_fields start_ignores_queue)
qed

theorem start_clears_queue_witness:
  "send_raises_at example_reset_io = None
   \<and> packet_queue wellformed_example = [(ustr ''1,2048,0,0'', (''10.0.0.5'', 5000))]
   \<and> packet_queue (fst (start_multicast_listener example_start_io wellformed_example)) = []
   \<and> packet_queue (handle_reset_sequence example_reset_io wellformed_example) = []
   \<and> handle_reset_sequence example_reset_io wellformed_example =
       handle_reset_sequence example_reset_io (example_started True)"
proof -
  have w: "wellformed_example = (example_started True)\<lparr>packet_queue := [(ustr ''1,2048,0,0'', (''10.0.0.5'', 5000))]\<rparr>"
    by (simp add: wellformed_example_def)
  have q: "packet_queue wellformed_example = [(ustr ''1,2048,0,0'', (''10.0.0.5'', 5000))]"
    by (simp add: wellformed_example_def)
  show ?thesis
    using q example_reset_io_fields(2)
      start_clears_queue[of example_start_io wellformed_example _ example_reset_io]
      start_clears_queue[of example_start_io "example_started True"
        "[(ustr ''1,2048,0,0'', (''10.0.0.5'', 5000))]" example_reset_io]
    unfolding w[symmetric] by simp
qed

text \<open>
  Claim C10 as stated fails for the records that are in the queue when the pipeline is
  stopped: the main loop is not stopped by a reset and processes them while the reset
  sequence sleeps. The record received before the stop is decoded and its value enters the
  accumulator; the queue is empty before the restart clears it.
\<close>

theorem start_clears_queue_counterexample:
  "packet_queue leftover_example = [(ustr ''1,2048,0,0'', (''10.0.0.5'', 5000))]
   \<and> log_file_handle leftover_example = None
   \<and> light_value_accumulator (process_packets example_decimal example_obs leftover_example) = [2048]
   \<and> packet_queue (process_packets example_decimal example_obs leftover_example) = []"
proof -
  have q: "packet_queue leftover_example = [(ustr ''1,2048,0,0'', (''10.0.0.5'', 5000))]"
    and l: "last_process_time leftover_example = 0"
    and a: "light_value_accumulator leftover_example = []"
    and h: "log_file_handle leftover_example = None"
    by (simp_all add: leftover_example_def stop_multicast_listener_def close_log_file_def
        clear_led_matrix_def button_pressed_handler_def emit_def Let_def enqueue_packet_def
        strip_example example_started_fields example_reset_io_def split: option.splits)
  show ?thesis using q h process_packets_example(1,2)[OF q l] a by simp
qed

subsection \<open>The button and the reset guard\<close>

lemma log_master_data_frame:
  "reset_in_progress (log_master_data ob ip v s) = reset_in_progress s"
  "listening_thread (log_master_data ob ip v s) = listening_thread s"
  "trace (log_master_data ob ip v s) = trace s"
  "matrix_columns (log_master_data ob ip v s) = matrix_columns s"
  "MATRIX_ENABLED (log_master_data ob ip v s) = MATRIX_ENABLED s"
  by (simp_all add: log_master_data_def Let_def split: option.splits)

lemma process_loop_frame:
  "reset_in_progress (fst (process_loop decimal n obs i s)) = reset_in_progress s
   \<and> listening_thread (fst (process_loop decimal n obs i s)) = listening_thread s
   \<and> trace (fst (process_loop decimal n obs i s)) = trace s
   \<and> matrix_columns (fst (process_loop decimal n obs i s)) = matrix_columns s
   \<and> MATRIX_ENABLED (fst (process_loop decimal n obs i s)) = MATRIX_ENABLED s"
proof (induction n arbitrary: i s)
  case 0
  show ?case by simp
next
  case (Suc n)
  show ?case
  proof (cases "packet_queue s")
    case Nil
    then show ?thesis by simp
  next
    case (Cons p rest)
    obtain message address where p: "p = (message, address)" by (cases p)
    show ?thesis
      using Cons p Suc.IH
      by (simp add: Let_def log_master_data_frame split: option.splits)
  qed
qed

lemma process_packets_frame:
  "reset_in_progress (process_packets decimal obs s) = reset_in_progress s"
  "listening_thread (process_packets decimal obs s) = listening_thread s"
  "trace (process_packets decimal obs s) = trace s"
  "matrix_columns (process_packets decimal obs s) = matrix_columns s"
  "MATRIX_ENABLED (process_packets decimal obs s) = MATRIX_ENABLED s"
  using process_loop_frame[of decimal 100 obs 0 s] by (simp_all add: process_packets_def)

lemma matrix_update_iteration_frame:
  "reset_in_progress (matrix_update_iteration t s) = reset_in_progress s"
  "listening_thread (matrix_update_iteration t s) = listening_thread s"
  "MATRIX_ENABLED (matrix_update_iteration t s) = MATRIX_ENABLED s"
  "set (trace (matrix_update_iteration t s)) \<subseteq> set (trace s) \<union> range Draw \<union> range Sleep"
  by (auto simp: matrix_update_iteration_def Let_def emit_def update_led_matrix_def split: sum.splits)

lemma matrix_update_iteration_columns:
  "matrix_columns (matrix_update_iteration t s) =
     (case fired_height t s of
        None \<Rightarrow> matrix_columns s
      | Some h \<Rightarrow> deque_append MATRIX_HISTORY_SIZE (matrix_columns s) h)"
  by (auto simp: matrix_update_iteration_def fired_height_def Let_def emit_def update_led_matrix_def
      split: sum.splits)

lemma reset_step_frame:
  assumes "reset_step io pc s = (s', r)"
  shows "r \<noteq> None \<Longrightarrow> reset_in_progress s' = reset_in_progress s"
    and "r = None \<Longrightarrow> \<not> reset_in_progress s'"
    and "matrix_columns s' = matrix_columns s \<or> matrix_columns s' = []"
    and "MATRIX_ENABLED s' = MATRIX_ENABLED s"
proof -
  obtain es where es: "fst (send_reset_command (send_raises_at io) s) = emit es s"
    using send_reset_command_emits by blast
  obtain s4 e where r: "send_reset_command (send_raises_at io) s = (s4, e)"
    by (cases "send_reset_command (send_raises_at io) s")
  then have s4: "s4 = emit es s" using es by simp
  show "r \<noteq> None \<Longrightarrow> reset_in_progress s' = reset_in_progress s"
    using assms r s4
    by (cases pc; cases e) (auto simp: clear_fields stop_fields emit_fields)
  show "r = None \<Longrightarrow> \<not> reset_in_progress s'"
    using assms r s4
    by (cases pc; cases e) (auto simp: clear_fields stop_fields emit_fields)
  show "matrix_columns s' = matrix_columns s \<or> matrix_columns s' = []"
    using assms r s4
    by (cases pc; cases e) (auto simp: clear_fields stop_fields emit_fields start_fields)
  show "MATRIX_ENABLED s' = MATRIX_ENABLED s"
    using assms r s4
    by (cases pc; cases e) (auto simp: clear_fields stop_fields emit_fields start_fields)
qed

lemma resets_started_handler:
  "resets_started (trace (button_pressed_handler s)) =
     resets_started (trace s) + (if reset_in_progress s then 0 else 1)"
  by (simp add: handler_fields resets_started_def)

lemma reachable_reset_guard:
  assumes "reachable c"
  shows "length (snd c) \<le> 1 \<and> (reset_in_progress (fst c) \<longleftrightarrow> snd c \<noteq> [])"
  using assms
proof (induction rule: reachable.induct)
  case (startup io matrix_enabled)
  show ?case by (simp add: start_fields initial_state_def)
next
  case (press s ts)
  then show ?case
    by (cases "reset_in_progress s") (simp_all add: resets_started_handler handler_fields(1))
next
  case (reset_goes_on s ts pc us rio s' pc')
  then have e: "ts = []" "us = []" and f: "reset_in_progress s" by simp_all
  show ?case
    using reset_step_frame(1)[OF reset_goes_on.hyps(2)] e f by simp
next
  case (reset_ends s ts pc us rio s')
  then have e: "ts = []" "us = []" by simp_all
  show ?case
    using reset_step_frame(2)[OF reset_ends.hyps(2)] e by simp
next
  case (main_loop s ts decimal obs)
  then show ?case by (simp add: process_packets_frame)
next
  case (receiver s ts data address)
  then show ?case by (simp add: enqueue_fields)
next
  case (aggregator s ts current_time)
  then show ?case by (simp add: matrix_update_iteration_frame)
qed

lemma reset_step_progress:
  "reset_step io pc s = (s', Some pc') \<Longrightarrow> steps_left pc' < steps_left pc"
  by (cases pc) (auto simp: steps_left_def split: prod.splits option.splits)

lemma reset_run_complete: "reset_run 3 io AtStop s = Some (handle_reset_sequence io s)"
proof -
  obtain s4 e where r: "send_reset_command (send_raises_at io)
      (clear_led_matrix (reset_clear_raises io) (stop_multicast_listener (emit [LedOn] s))) = (s4, e)"
    by (cases "send_reset_command (send_raises_at io)
      (clear_led_matrix (reset_clear_raises io) (stop_multicast_listener (emit [LedOn] s)))")
  show ?thesis
    by (cases e) (simp_all add: eval_nat_numeral handle_reset_sequence_def Let_def r)
qed

lemma reset_run_enough:
  "steps_left pc \<le> n \<Longrightarrow> \<exists>s'. reset_run n io pc s = Some s' \<and> \<not> reset_in_progress s'"
proof (induction n arbitrary: pc s)
  case 0
  then show ?case by (cases pc) (simp_all add: steps_left_def)
next
  case (Suc n)
  obtain s1 r where st: "reset_step io pc s = (s1, r)" by (cases "reset_step io pc s")
  show ?case
  proof (cases r)
    case None
    then show ?thesis using st reset_step_frame(2)[OF st] by simp
  next
    case (Some pc')
    have "steps_left pc' < steps_left pc" using st Some reset_step_progress by blast
    then have "steps_left pc' \<le> n" using Suc.prems by simp
    from Suc.IH[OF this, of s1] show ?thesis using st Some by simp
  qed
qed

text \<open>
  Claim C8. In every reachable configuration at most one reset sequence has been started
  and has not ended, and \<open>reset_in_progress\<close> is true exactly when there is one. A press
  while the flag is true only blinks the LED: it starts no thread and changes no variable.
  A press while the flag is false sets the flag and starts exactly one reset sequence, and
  that sequence runs from its first statement through its \<open>finally\<close> clause: left to
  itself it ends after three steps in the state that \<open>handle_reset_sequence\<close> returns, with
  the flag false. With other threads running in between, every step of a sequence that
  does not end it brings it nearer to its end, which it reaches after at most three of its
  own steps.
\<close>

theorem one_reset_at_a_time:
  assumes "reachable (s, ts)"
  shows "length ts \<le> 1
   \<and> (reset_in_progress s \<longleftrightarrow> ts \<noteq> [])
   \<and> (if reset_in_progress s
       then button_pressed_handler s = emit [LedOn, Sleep (1 / 10), LedOff] s
          \<and> resets_started (trace (button_pressed_handler s)) = resets_started (trace s)
       else reset_in_progress (button_pressed_handler s)
          \<and> resets_started (trace (button_pressed_handler s)) = resets_started (trace s) + 1
          \<and> reset_run 3 io AtStop (button_pressed_handler s) =
               Some (handle_reset_sequence io (button_pressed_handler s))
          \<and> \<not> reset_in_progress (handle_reset_sequence io (button_pressed_handler s)))
   \<and> (\<forall>pc s1 pc'. reset_step io pc s = (s1, Some pc') \<longrightarrow> steps_left pc' < steps_left pc)
   \<and> (\<forall>pc. steps_left pc \<le> 3
          \<and> (\<exists>s'. reset_run (steps_left pc) io pc s = Some s' \<and> \<not> reset_in_progress s'))"
proof -
  have a: "length ts \<le> 1 \<and> (reset_in_progress s \<longleftrightarrow> ts \<noteq> [])"
    using reachable_reset_guard[OF assms] by simp
  have b: "button_pressed_handler s = emit [LedOn, Sleep (1 / 10), LedOff] s
          \<and> resets_started (trace (button_pressed_handler s)) = resets_started (trace s)"
    if "reset_in_progress s"
    using that by (simp add: resets_started_handler) (simp add: button_pressed_handler_def emit_def)
  have c: "reset_in_progress (button_pressed_handler s)
          \<and> resets_started (trace (button_pressed_handler s)) = resets_started (trace s) + 1
          \<and> reset_run 3 io AtStop (button_pressed_handler s) =
               Some (handle_reset_sequence io (button_pressed_handler s))
          \<and> \<not> reset_in_progress (handle_reset_sequence io (button_pressed_handler s))"
    if "\<not> reset_in_progress s"
    using that
    by (simp add: resets_started_handler handler_fields(1) reset_run_complete
        handle_reset_sequence_def Let_def)
  have d: "\<forall>pc s1 pc'. reset_step io pc s = (s1, Some pc') \<longrightarrow> steps_left pc' < steps_left pc"
    using reset_step_progress by blast
  have e: "steps_left pc \<le> 3
          \<and> (\<exists>s'. reset_run (steps_left pc) io pc s = Some s' \<and> \<not> reset_in_progress s')" for pc
    using reset_run_enough[of pc "steps_left pc" io s]
    by (cases pc) (simp_all add: steps_left_def)
  have f: "if reset_in_progress s
       then button_pressed_handler s = emit [LedOn, Sleep (1 / 10), LedOff] s
          \<and> resets_started (trace (button_pressed_handler s)) = resets_started (trace s)
       else reset_in_progress (button_pressed_handler s)
          \<and> resets_started (trace (button_pressed_handler s)) = resets_started (trace s) + 1
          \<and> reset_run 3 io AtStop (button_pressed_handler s) =
               Some (handle_reset_sequence io (button_pressed_handler s))
          \<and> \<not> reset_in_progress (handle_reset_sequence io (button_pressed_handler s))"
  proof (cases "reset_in_progress s")
    case True
    show ?thesis unfolding if_P[OF True] by (rule b[OF True])
  next
    case False
    show ?thesis unfolding if_not_P[OF False] by (rule c[OF False])
  qed
  show ?thesis using a d e f by blast
qed

lemma reachable_examples:
  "reachable (example_started True, [])"
  "reachable (pressed_example, [AtStop])"
proof -
  show a: "reachable (example_started True, [])"
    unfolding example_started_def by (rule reachable.startup)
  have "resets_started (trace (button_pressed_handler (example_started True)))
      - resets_started (trace (example_started True)) = 1"
    by (simp add: resets_started_handler example_started_fields)
  with reachable.press[OF a] show "reachable (pressed_example, [AtStop])"
    by (simp add: pressed_example_def)
qed

lemma reset_step_example:
  "reset_step example_reset_io AtStop pressed_example =
     (fst (reset_step example_reset_io AtStop pressed_example), Some AtBroadcast)"
  by simp

theorem one_reset_at_a_time_witness:
  "reachable (example_started True, [])
   \<and> \<not> reset_in_progress (example_started True)
   \<and> resets_started (trace (button_pressed_handler (example_started True))) =
       resets_started (trace (example_started True)) + 1
   \<and> reset_run 3 example_reset_io AtStop pressed_example =
       Some (handle_reset_sequence example_reset_io pressed_example)
   \<and> \<not> reset_in_progress (handle_reset_sequence example_reset_io pressed_example)
   \<and> reachable (pressed_example, [AtStop])
   \<and> reset_in_progress pressed_example
   \<and> button_pressed_handler pressed_example = emit [LedOn, Sleep (1 / 10), LedOff] pressed_example
   \<and> resets_started (trace (button_pressed_handler pressed_example)) =
       resets_started (trace pressed_example)
   \<and> reset_step example_reset_io AtStop pressed_example =
       (fst (reset_step example_reset_io AtStop pressed_example), Some AtBroadcast)
   \<and> steps_left AtBroadcast < steps_left AtStop"
proof -
  have a: "\<not> reset_in_progress (example_started True)"
    by (simp add: example_started_fields)
  have b: "reset_in_progress pressed_example"
    by (simp add: pressed_example_def handler_fields)
  note T1 = one_reset_at_a_time[OF reachable_examples(1), of example_reset_io]
  note T2 = one_reset_at_a_time[OF reachable_examples(2), of example_reset_io]
  have c: "reset_in_progress (button_pressed_handler (example_started True))
     \<and> resets_started (trace (button_pressed_handler (example_started True))) =
       resets_started (trace (example_started True)) + 1
     \<and> reset_run 3 example_reset_io AtStop (button_pressed_handler (example_started True)) =
         Some (handle_reset_sequence example_reset_io (button_pressed_handler (example_started True)))
     \<and> \<not> reset_in_progress (handle_reset_sequence example_reset_io
           (button_pressed_handler (example_started True)))"
    using conjunct1[OF conjunct2[OF conjunct2[OF T1]]]
    unfolding if_not_P[OF a] .
  have d: "button_pressed_handler pressed_example = emit [LedOn, Sleep (1 / 10), LedOff] pressed_example
     \<and> resets_started (trace (button_pressed_handler pressed_example)) =
       resets_started (trace pressed_example)"
    using conjunct1[OF conjunct2[OF conjunct2[OF T2]]]
    unfolding if_P[OF b] .
  have e: "steps_left AtBroadcast < steps_left AtStop"
    using conjunct1[OF conjunct2[OF conjunct2[OF conjunct2[OF T2]]]] reset_step_example
    by blast
  show ?thesis
    using reachable_examples a b c c[folded pressed_example_def] d e reset_step_example by blast
qed

subsection \<open>The display history\<close>

lemma map_value_to_height_range: "0 \<le> map_value_to_height m \<and> map_value_to_height m \<le> 7"
  by (simp add: map_value_to_height_step_bucket step_bucket_def)

lemma fired_height_range: "fired_height t s = Some h \<Longrightarrow> 0 \<le> h \<and> h \<le> 7"
  using map_value_to_height_range
  by (auto simp: fired_height_def split: if_splits sum.splits)

lemma deque_append_last_n:
  assumes "length xs \<le> n" "0 < n"
  shows "deque_append n xs x = last_n n (xs @ [x])"
proof (cases "length xs < n")
  case True
  then show ?thesis using assms by (simp add: deque_append_def last_n_def)
next
  case False
  then have l: "length xs = n" using assms by simp
  then have "xs \<noteq> []" using assms by auto
  then have "drop (Suc 0) (xs @ [x]) = tl xs @ [x]" by (cases xs) simp_all
  then show ?thesis using l assms by (simp add: deque_append_def last_n_def)
qed

lemma last_n_append: "last_n n (last_n n xs @ ys) = last_n n (xs @ ys)"
  by (simp add: last_n_def) (cases "length xs \<le> n"; simp add: min_def add.commute)

lemma length_last_n: "length (last_n n xs) = min n (length xs)"
  by (simp add: last_n_def)

lemma last_n_short: "length xs \<le> n \<Longrightarrow> last_n n xs = xs"
  by (simp add: last_n_def)

lemma deque_append_bounds:
  assumes "length xs \<le> 8"
  shows "length (deque_append MATRIX_HISTORY_SIZE xs x) \<le> 8"
    and "set (deque_append MATRIX_HISTORY_SIZE xs x) \<subseteq> insert x (set xs)"
proof -
  show "length (deque_append MATRIX_HISTORY_SIZE xs x) \<le> 8"
    using assms by (simp add: deque_append_def MATRIX_HISTORY_SIZE_def)
  show "set (deque_append MATRIX_HISTORY_SIZE xs x) \<subseteq> insert x (set xs)"
    by (cases xs) (auto simp: deque_append_def MATRIX_HISTORY_SIZE_def)
qed

lemma perform_columns:
  "matrix_columns (perform a s) =
     (case a of
        MatrixIteration t \<Rightarrow>
          (case fired_height t s of
             None \<Rightarrow> matrix_columns s
           | Some h \<Rightarrow> deque_append MATRIX_HISTORY_SIZE (matrix_columns s) h)
      | _ \<Rightarrow> matrix_columns s)"
  by (cases a) (simp_all add: process_packets_frame enqueue_fields matrix_update_iteration_columns)

lemma run_columns:
  assumes "length (matrix_columns s) \<le> 8"
  shows "matrix_columns (run acts s) = last_n 8 (matrix_columns s @ fired_heights acts s)"
  using assms
proof (induction acts arbitrary: s)
  case Nil
  then show ?case by (simp add: last_n_short)
next
  case (Cons a acts)
  show ?case
  proof (cases a)
    case (ProcessPackets decimal obs)
    then show ?thesis using Cons by (simp add: process_packets_frame)
  next
    case (Receive d addr)
    then show ?thesis using Cons by (simp add: enqueue_fields)
  next
    case (MatrixIteration t)
    show ?thesis
    proof (cases "fired_height t s")
      case None
      then show ?thesis using Cons MatrixIteration
        by (simp add: matrix_update_iteration_columns)
    next
      case (Some h)
      let ?s' = "matrix_update_iteration t s"
      have c: "matrix_columns ?s' = last_n 8 (matrix_columns s @ [h])"
        using Some Cons.prems deque_append_last_n[of "matrix_columns s" 8 h]
        by (simp add: matrix_update_iteration_columns MATRIX_HISTORY_SIZE_def)
      then have "length (matrix_columns ?s') \<le> 8" by (simp add: length_last_n)
      from Cons.IH[OF this]
      have "matrix_columns (run acts ?s') =
          last_n 8 (last_n 8 (matrix_columns s @ [h]) @ fired_heights acts ?s')"
        using c by simp
      then show ?thesis using Some MatrixIteration by (simp add: last_n_append)
    qed
  qed
qed

lemma fired_heights_range: "h \<in> set (fired_heights acts s) \<Longrightarrow> 0 \<le> h \<and> h \<le> 7"
proof (induction acts arbitrary: s)
  case Nil
  then show ?case by simp
next
  case (Cons a acts)
  show ?case
  proof (cases a)
    case (MatrixIteration t)
    then show ?thesis using Cons fired_height_range[of t s]
      by (cases "fired_height t s") auto
  qed (use Cons in auto)
qed

lemma reachable_history:
  assumes "reachable c"
  shows "length (matrix_columns (fst c)) \<le> 8 \<and> (\<forall>h \<in> set (matrix_columns (fst c)). 0 \<le> h \<and> h \<le> 7)"
  using assms
proof (induction rule: reachable.induct)
  case (startup io matrix_enabled)
  show ?case by (simp add: start_fields initial_state_def)
next
  case (press s ts)
  then show ?case by (simp add: handler_fields)
next
  case (reset_goes_on s ts pc us rio s' pc')
  then show ?case using reset_step_frame(3)[OF reset_goes_on.hyps(2)] by auto
next
  case (reset_ends s ts pc us rio s')
  then show ?case using reset_step_frame(3)[OF reset_ends.hyps(2)] by auto
next
  case (main_loop s ts decimal obs)
  then show ?case by (simp add: process_packets_frame)
next
  case (receiver s ts data address)
  then show ?case by (simp add: enqueue_fields)
next
  case (aggregator s ts current_time)
  show ?case
  proof (cases "fired_height current_time s")
    case None
    then show ?thesis using aggregator by (simp add: matrix_update_iteration_columns)
  next
    case (Some h)
    have l: "length (matrix_columns s) \<le> 8" using aggregator by simp
    show ?thesis
      using Some aggregator deque_append_bounds[OF l, of h] fired_height_range[OF Some]
      by (auto simp: matrix_update_iteration_columns)
  qed
qed

text \<open>
  Claim C9. In every reachable state the history has at most 8 entries, each an integer
  from 0 to 7. Over any run of a session that starts with at most 8 entries, the history
  is the newest 8 of its former entries followed by the heights fired during the run, in
  the order of the fires; so after more than 8 fires its length is exactly 8. An append to
  a history of 8 entries drops the oldest one.
\<close>

theorem history_bounded:
  "(reachable (s, ts) \<longrightarrow>
      length (matrix_columns s) \<le> 8 \<and> (\<forall>h \<in> set (matrix_columns s). 0 \<le> h \<and> h \<le> 7))
   \<and> (length (matrix_columns s) \<le> 8 \<longrightarrow>
        matrix_columns (run acts s) = last_n 8 (matrix_columns s @ fired_heights acts s)
        \<and> length (matrix_columns (run acts s)) \<le> 8
        \<and> (8 < length (fired_heights acts s) \<longrightarrow> length (matrix_columns (run acts s)) = 8))
   \<and> (\<forall>h \<in> set (fired_heights acts s). 0 \<le> h \<and> h \<le> 7)
   \<and> (length (matrix_columns s) = 8 \<and> fired_height t s = Some h \<longrightarrow>
        matrix_columns (matrix_update_iteration t s) = tl (matrix_columns s) @ [h])"
proof -
  have a: "reachable (s, ts) \<Longrightarrow>
      length (matrix_columns s) \<le> 8 \<and> (\<forall>h \<in> set (matrix_columns s). 0 \<le> h \<and> h \<le> 7)"
    using reachable_history[of "(s, ts)"] by simp
  have b: "matrix_columns (run acts s) = last_n 8 (matrix_columns s @ fired_heights acts s)
        \<and> length (matrix_columns (run acts s)) \<le> 8
        \<and> (8 < length (fired_heights acts s) \<longrightarrow> length (matrix_columns (run acts s)) = 8)"
    if "length (matrix_columns s) \<le> 8"
    using run_columns[OF that] by (simp add: length_last_n)
  have c: "\<forall>h \<in> set (fired_heights acts s). 0 \<le> h \<and> h \<le> 7"
    using fired_heights_range by blast
  have d: "matrix_columns (matrix_update_iteration t s) = tl (matrix_columns s) @ [h]"
    if "length (matrix_columns s) = 8" "fired_height t s = Some h"
    using that by (simp add: matrix_update_iteration_columns deque_append_def MATRIX_HISTORY_SIZE_def)
  show ?thesis using a b c d by blast
qed

lemma matrix_update_iteration_after:
  "last_matrix_update (matrix_update_iteration t s) =
     (case fired_height t s of None \<Rightarrow> last_matrix_update s | Some h \<Rightarrow> t)"
  "light_value_accumulator (matrix_update_iteration t s) =
     (case fired_height t s of None \<Rightarrow> light_value_accumulator s | Some h \<Rightarrow> [])"
  by (auto simp: matrix_update_iteration_def fired_height_def Let_def emit_def update_led_matrix_def
      split: sum.splits)

lemma fired_height_fires:
  assumes "MATRIX_UPDATE_INTERVAL \<le> t - last_matrix_update s"
    and "average (light_value_accumulator s) = Inr m"
  shows "fired_height t s = Some (map_value_to_height m)"
  using assms by (simp add: fired_height_def)

lemma average_examples: "average [] = Inr 0" "average [4095] = Inr 4095"
  by (simp_all add: average_def float_overflows_def)

lemma height_examples: "map_value_to_height 0 = 0" "map_value_to_height 4095 = 7"
  by code_simp+

lemma bright_example_fields:
  "last_matrix_update bright_example = 1000"
  "light_value_accumulator bright_example = [4095]"
  "matrix_columns bright_example = []"
  by (simp_all add: bright_example_def example_started_fields example_started_clock)

lemma nine_fires_heights:
  "fired_heights nine_fires bright_example = [7, 0, 0, 0, 0, 0, 0, 0, 0]"
  by (simp add: nine_fires_def fired_height_fires matrix_update_iteration_after average_examples
      height_examples bright_example_fields MATRIX_UPDATE_INTERVAL_def)

theorem history_bounded_witness:
  "reachable (example_started True, [])
   \<and> length (matrix_columns (example_started True)) \<le> 8
   \<and> length (matrix_columns bright_example) \<le> 8
   \<and> 8 < length (fired_heights nine_fires bright_example)
   \<and> matrix_columns (run nine_fires bright_example) = [0, 0, 0, 0, 0, 0, 0, 0]
   \<and> length (matrix_columns full_example) = 8
   \<and> fired_height 1004 full_example = Some 0
   \<and> matrix_columns (matrix_update_iteration 1004 full_example) = [0, 0, 0, 0, 0, 0, 0, 0]"
proof -
  have f: "fired_height 1004 full_example = Some 0"
    using fired_height_fires[of 1004 full_example 0]
    by (simp add: full_example_def example_started_fields example_started_clock average_examples
        height_examples MATRIX_UPDATE_INTERVAL_def)
  have c: "matrix_columns full_example = [7, 0, 0, 0, 0, 0, 0, 0]"
    by (simp add: full_example_def)
  show ?thesis
    using reachable_examples(1) f c nine_fires_heights bright_example_fields(3)
      history_bounded[of "example_started True" "[]" nine_fires 1004 0]
      history_bounded[of bright_example "[]" nine_fires 1004 0]
      history_bounded[of full_example "[]" nine_fires 1004 0]
    by (simp add: last_n_def)
qed

subsection \<open>Joins\<close>


lemma reset_step_joins:
  assumes "reset_step io pc s = (s', r)"
  shows "Join t d \<in> set (trace s') \<Longrightarrow>
           Join t d \<in> set (trace s) \<or> (listening_thread s = Some t \<and> d = 3)"
    and "listening_thread s' = listening_thread s \<or> listening_thread s' = None
           \<or> listening_thread s' = Some Listener"
proof -
  have "(Join t d \<in> set (trace s') \<longrightarrow>
           Join t d \<in> set (trace s) \<or> (listening_thread s = Some t \<and> d = 3))
     \<and> (listening_thread s' = listening_thread s \<or> listening_thread s' = None
           \<or> listening_thread s' = Some Listener)"
  proof (cases pc)
    case AtStop
    then have s': "s' = clear_led_matrix (reset_clear_raises io) (stop_multicast_listener (emit [LedOn] s))"
      using assms by simp
    show ?thesis unfolding s'
      by (cases "listening_thread s") (simp_all add: clear_fields stop_fields emit_fields)
  next
    case AtBroadcast
    obtain es where es: "fst (send_reset_command (send_raises_at io) s) = emit es s"
      "set es \<subseteq> {SendTo reset_message, Sleep (1 / 10)}"
      using send_reset_command_emits by blast
    obtain s4 e where r: "send_reset_command (send_raises_at io) s = (s4, e)"
      by (cases "send_reset_command (send_raises_at io) s")
    then have s4: "s4 = emit es s" using es by simp
    have nj: "Join t d \<notin> set es" using es(2) by auto
    show ?thesis
      using assms AtBroadcast r s4 nj by (cases e) (auto simp: emit_fields)
  next
    case AtRestart
    then have s': "s' = (fst (start_multicast_listener (restart_io io) s))\<lparr>reset_in_progress := False\<rparr>"
      using assms by auto
    show ?thesis unfolding s' by (simp add: start_fields)
  qed
  then show "Join t d \<in> set (trace s') \<Longrightarrow>
           Join t d \<in> set (trace s) \<or> (listening_thread s = Some t \<and> d = 3)"
    and "listening_thread s' = listening_thread s \<or> listening_thread s' = None
           \<or> listening_thread s' = Some Listener"
    by blast+
qed

lemma joins_step:
  assumes step: "reset_step io pc s = (s', r)"
    and inv: "(listening_thread s = None \<or> listening_thread s = Some Listener)
       \<and> (\<forall>t d. Join t d \<in> set (trace s) \<longrightarrow> t = Listener \<and> d = 3)"
  shows "(listening_thread s' = None \<or> listening_thread s' = Some Listener)
       \<and> (\<forall>t d. Join t d \<in> set (trace s') \<longrightarrow> t = Listener \<and> d = 3)"
proof -
  have a: "listening_thread s' = None \<or> listening_thread s' = Some Listener"
    using reset_step_joins(2)[OF step] inv by auto
  have b: "t = Listener \<and> d = 3" if "Join t d \<in> set (trace s')" for t d
  proof -
    from reset_step_joins(1)[OF step that]
    consider "Join t d \<in> set (trace s)" | "listening_thread s = Some t" "d = 3" by blast
    then show ?thesis using inv by cases auto
  qed
  show ?thesis using a b by blast
qed

lemma reachable_joins:
  assumes "reachable c"
  shows "(listening_thread (fst c) = None \<or> listening_thread (fst c) = Some Listener)
     \<and> (\<forall>t d. Join t d \<in> set (trace (fst c)) \<longrightarrow> t = Listener \<and> d = 3)"
  using assms
proof (induction rule: reachable.induct)
  case (startup io matrix_enabled)
  show ?case by (simp add: start_fields initial_state_def)
next
  case (press s ts)
  then show ?case by (simp add: handler_fields)
next
  case (reset_goes_on s ts pc us rio s' pc')
  show ?case
    using joins_step[OF reset_goes_on.hyps(2)] reset_goes_on.IH by simp
next
  case (reset_ends s ts pc us rio s')
  show ?case
    using joins_step[OF reset_ends.hyps(2)] reset_ends.IH by simp
next
  case (main_loop s ts decimal obs)
  then show ?case by (simp add: process_packets_frame)
next
  case (receiver s ts data address)
  then show ?case by (simp add: enqueue_fields)
next
  case (aggregator s ts current_time)
  have "Join t d \<in> set (trace s)" if "Join t d \<in> set (trace (matrix_update_iteration current_time s))" for t d
    using that matrix_update_iteration_frame(4)[of current_time s] by auto
  then show ?case
    using aggregator.IH by (simp add: matrix_update_iteration_frame(2)) blast
qed

text \<open>
  Claim C6, amended. The stop step sets \<open>stop_listening\<close>, the one flag that the loops of
  both the receiver and the aggregator test, joins the thread stored in
  \<open>listening_thread\<close> with a timeout of 3 seconds, joins no other thread, clears that
  variable and closes the session log file. In every reachable state the stored thread is
  the receiver, and every join so far, that of the stop included, is a join of the receiver
  with a timeout of 3 seconds: the aggregator is never joined.
\<close>

theorem stop_step:
  "stop_listening (stop_multicast_listener s)
   \<and> \<not> listener_continues (stop_multicast_listener s)
   \<and> \<not> matrix_thread_continues (stop_multicast_listener s)
   \<and> trace (stop_multicast_listener s) =
       trace s @ (case listening_thread s of None \<Rightarrow> [] | Some t \<Rightarrow> [Join t 3])
   \<and> listening_thread (stop_multicast_listener s) = None
   \<and> log_file_handle (stop_multicast_listener s) = None
   \<and> (reachable (s, ts) \<longrightarrow>
        (listening_thread s = None \<or> listening_thread s = Some Listener)
        \<and> (\<forall>t d. Join t d \<in> set (trace (stop_multicast_listener s)) \<longrightarrow> t = Listener \<and> d = 3))"
proof -
  have r: "(listening_thread s = None \<or> listening_thread s = Some Listener)
        \<and> (\<forall>t d. Join t d \<in> set (trace (stop_multicast_listener s)) \<longrightarrow> t = Listener \<and> d = 3)"
    if "reachable (s, ts)"
  proof -
    from reachable_joins[OF that]
    have inv: "listening_thread s = None \<or> listening_thread s = Some Listener"
      and old: "\<And>t d. Join t d \<in> set (trace s) \<Longrightarrow> t = Listener \<and> d = 3"
      by simp_all
    have "t = Listener \<and> d = 3" if "Join t d \<in> set (trace (stop_multicast_listener s))" for t d
      using inv
    proof
      assume "listening_thread s = None"
      then show ?thesis using that old by (simp add: stop_fields(4))
    next
      assume "listening_thread s = Some Listener"
      then show ?thesis using that old by (auto simp: stop_fields(4))
    qed
    then show ?thesis using inv by blast
  qed
  have a: "stop_listening (stop_multicast_listener s)
   \<and> \<not> listener_continues (stop_multicast_listener s)
   \<and> \<not> matrix_thread_continues (stop_multicast_listener s)
   \<and> trace (stop_multicast_listener s) =
       trace s @ (case listening_thread s of None \<Rightarrow> [] | Some t \<Rightarrow> [Join t 3])
   \<and> listening_thread (stop_multicast_listener s) = None
   \<and> log_file_handle (stop_multicast_listener s) = None"
    by (simp add: stop_fields listener_continues_def matrix_thread_continues_def)
  show ?thesis using a r by blast
qed

theorem stop_step_witness:
  "reachable (example_started True, [])
   \<and> listening_thread (example_started True) = Some Listener
   \<and> trace (stop_multicast_listener (example_started True)) =
       [DisplayClear, Start Listener, Start MatrixUpdater, Join Listener 3]"
proof -
  have "trace (stop_multicast_listener (example_started True)) =
       trace (example_started True) @
        (case listening_thread (example_started True) of None \<Rightarrow> [] | Some t \<Rightarrow> [Join t 3])"
    using stop_step[of "example_started True" "[]"] by blast
  then show ?thesis
    using reachable_examples(1) by (simp add: example_started_trace)
qed

subsection \<open>Steps that raise\<close>

text \<open>
  A write that raises leaves the log without the row, the reading still being accumulated.
\<close>

lemma write_failure_no_row:
  assumes "DATA_THROTTLE \<le> time_time ob - last_process_time s" and "write_raises ob"
  shows "logged_rows (log_master_data ob ip v s) = logged_rows s"
    and "light_value_accumulator (log_master_data ob ip v s) = light_value_accumulator s @ [v]"
  using assms by (auto simp: log_master_data_def logged_rows_def Let_def split: option.splits)

text \<open>
  When the display's \<open>clear()\<close> raises, the reset sequence leaves the history as it was.
\<close>

lemma reset_with_raising_clear:
  "matrix_columns (handle_reset_sequence raising_clear_io full_example) = [7, 0, 0, 0, 0, 0, 0, 0]"
proof -
  have n: "send_raises_at raising_clear_io = None" by (simp add: raising_clear_io_def)
  show ?thesis
    unfolding handle_reset_sequence_None[OF n]
    by (simp add: start_fields emit_fields clear_fields stop_fields raising_clear_io_def
        full_example_def)
qed

text \<open>
  When a \<open>sendto\<close> raises, the reset sequence ends without restarting the pipeline: the
  stop flag stays set and no log file is open.
\<close>

lemma reset_with_raising_send:
  "stop_listening (handle_reset_sequence failing_reset_io pressed_example)
   \<and> log_file_handle (handle_reset_sequence failing_reset_io pressed_example) = None
   \<and> listening_thread (handle_reset_sequence failing_reset_io pressed_example) = None"
proof -
  let ?s3 = "clear_led_matrix (reset_clear_raises failing_reset_io)
               (stop_multicast_listener (emit [LedOn] pressed_example))"
  have f: "send_raises_at failing_reset_io = Some 3" by (simp add: failing_reset_io_def)
  obtain es where es: "fst (send_reset_command (Some 3) ?s3) = emit es ?s3"
    using send_reset_command_emits by blast
  have "send_reset_command (Some 3) ?s3 = (emit es ?s3, Some OSError)"
    using es failing_send[of ?s3] by (simp add: prod_eq_iff)
  then have "handle_reset_sequence failing_reset_io pressed_example =
      (emit es ?s3)\<lparr>reset_in_progress := False\<rparr>"
    by (simp add: handle_reset_sequence_def Let_def f)
  then show ?thesis
    by (simp add: emit_fields clear_fields stop_fields)
qed

end
